theory Spec2Isabelle
  imports Main
begin

section \<open>Values, errors and the data model\<close>

text \<open>
  The program is Python, so every field of a record holds a dynamically typed value.
  \<open>pyval\<close> covers the values the JSON reader can produce (floating-point numbers
  apart, which are left out of this development): \<open>None\<close>, booleans, unbounded
  integers, strings, lists, and dictionaries with string keys (an association list in
  insertion order). A Python string is modelled as a \<open>string\<close>, that is with code
  points below 256.
\<close>

datatype pyval =
    PNone
  | PBool bool
  | PInt int
  | PStr string
  | PList "pyval list"
  | PDict "(string \<times> pyval) list"

text \<open>The exceptions the modelled code can raise; \<open>OSError\<close> stands for a file that
  cannot be opened and \<open>JSONDecodeError\<close> for a file that is not JSON.\<close>

datatype error =
    KeyError string
  | TypeError
  | AttributeError
  | ValueError string
  | OSError
  | JSONDecodeError
  | RecursionError

text \<open>
  The dataclasses \<open>Student\<close> (fields \<open>id\<close>, \<open>name\<close>, \<open>room_id\<close>) and \<open>Room\<close>
  (fields \<open>id\<close>, \<open>name\<close>, \<open>students\<close>). The dataclass decorator checks no types,
  so the fields are \<open>pyval\<close>s. The fields are prefixed, since \<open>id\<close> is a constant of
  HOL and both classes have an \<open>id\<close> and a \<open>name\<close>.
\<close>

record Student =
  s_id :: pyval
  s_name :: pyval
  s_room_id :: pyval

record Room =
  r_id :: pyval
  r_name :: pyval
  r_students :: "Student list"

text \<open>The data model of the specification: identifiers are integers, names are text.\<close>

definition is_int :: "pyval \<Rightarrow> bool" where
  "is_int v = (case v of PInt _ \<Rightarrow> True | _ \<Rightarrow> False)"

definition is_str :: "pyval \<Rightarrow> bool" where
  "is_str v = (case v of PStr _ \<Rightarrow> True | _ \<Rightarrow> False)"

definition well_typed_student :: "Student \<Rightarrow> bool" where
  "well_typed_student s = (is_int (s_id s) \<and> is_str (s_name s) \<and> is_int (s_room_id s))"

definition well_typed_room :: "Room \<Rightarrow> bool" where
  "well_typed_room r =
     (is_int (r_id r) \<and> is_str (r_name r) \<and> list_all well_typed_student (r_students r))"

section \<open>The combine step\<close>

text \<open>
  \<open>student_map\<close> is a \<open>defaultdict(list)\<close> keyed by \<open>student.room_id\<close>. A dictionary
  hashes its key and compares keys with \<open>==\<close>: lists and dictionaries are unhashable
  (\<open>TypeError\<close>), and \<open>True == 1\<close>, \<open>False == 0\<close> with equal hashes, so a boolean
  key is the key of its number. \<open>dict_key\<close> gives the key a value stands for.
\<close>

datatype key = KNone | KNum int | KStr string

fun dict_key :: "pyval \<Rightarrow> error + key" where
  "dict_key PNone = Inr KNone"
| "dict_key (PBool b) = Inr (KNum (if b then 1 else 0))"
| "dict_key (PInt i) = Inr (KNum i)"
| "dict_key (PStr s) = Inr (KStr s)"
| "dict_key (PList _) = Inl TypeError"
| "dict_key (PDict _) = Inl TypeError"

type_synonym student_map = "key \<rightharpoonup> Student list"

text \<open>\<open>student_map[k].append(s)\<close>: a missing key is first bound to the empty list.\<close>

definition append_to :: "student_map \<Rightarrow> key \<Rightarrow> Student \<Rightarrow> student_map" where
  "append_to m k s = m(k \<mapsto> (case m k of None \<Rightarrow> [] | Some xs \<Rightarrow> xs) @ [s])"

text \<open>\<open>for student in students: student_map[student.room_id].append(student)\<close>\<close>

fun group_students :: "Student list \<Rightarrow> student_map \<Rightarrow> error + student_map" where
  "group_students [] m = Inr m"
| "group_students (s # ss) m =
     (case dict_key (s_room_id s) of
        Inl e \<Rightarrow> Inl e
      | Inr k \<Rightarrow> group_students ss (append_to m k s))"

text \<open>\<open>student_map.get(k, [])\<close>: no entry is created for a missing key.\<close>

definition map_get :: "student_map \<Rightarrow> key \<Rightarrow> Student list" where
  "map_get m k = (case m k of None \<Rightarrow> [] | Some xs \<Rightarrow> xs)"

text \<open>
  \<open>for room in rooms: room.students = student_map.get(room.id, [])\<close>. The rooms are
  updated in place and the same list is returned; an exception leaves no result. Rooms
  with equal identifiers are bound to one and the same list object, which nothing
  mutates afterwards, so the list's value is all that can be observed.
\<close>

fun assign_students :: "Room list \<Rightarrow> student_map \<Rightarrow> error + Room list" where
  "assign_students [] m = Inr []"
| "assign_students (r # rs) m =
     (case dict_key (r_id r) of
        Inl e \<Rightarrow> Inl e
      | Inr k \<Rightarrow>
          (case assign_students rs m of
             Inl e \<Rightarrow> Inl e
           | Inr rs' \<Rightarrow> Inr (r\<lparr>r_students := map_get m k\<rparr> # rs')))"

text \<open>Lines 144 to 151 of \<open>combine_rooms\<close>: the join of loaded students and rooms.\<close>

definition combine :: "Student list \<Rightarrow> Room list \<Rightarrow> error + Room list" where
  "combine students rooms =
     (case group_students students Map.empty of
        Inl e \<Rightarrow> Inl e
      | Inr student_map \<Rightarrow> assign_students rooms student_map)"

text \<open>\<open>RoomDataProcessor.combine_rooms\<close>: load with the configured loader, then join.\<close>

definition combine_rooms ::
  "(string \<Rightarrow> string \<Rightarrow> error + (Student list \<times> Room list)) \<Rightarrow> string \<Rightarrow> string
     \<Rightarrow> error + Room list" where
  "combine_rooms data_loader students_path rooms_path =
     (case data_loader students_path rooms_path of
        Inl e \<Rightarrow> Inl e
      | Inr (students, rooms) \<Rightarrow> combine students rooms)"

section \<open>Integers and strings of the Python library\<close>

text \<open>
  \<open>str(i)\<close> of an integer is its decimal numeral, with a minus sign when negative.
  The interpreter's limit on the length of decimal conversions is modelled for \<open>int(s)\<close>
  below, where the text of a file can exceed it, and not here: \<open>str\<close> is applied to
  integers that are in memory already, and the integers that the two loaders produce are
  within the limit.
\<close>

definition digit_char :: "nat \<Rightarrow> char" where
  "digit_char n = ''0123456789'' ! n"

fun nat_digits :: "nat \<Rightarrow> string" where
  "nat_digits n =
     (if n < 10 then [digit_char n] else nat_digits (n div 10) @ [digit_char (n mod 10)])"

definition str_int :: "int \<Rightarrow> string" where
  "str_int i = (if i < 0 then CHR ''-'' # nat_digits (nat (- i)) else nat_digits (nat i))"

text \<open>
  \<open>int(s)\<close> of a string, base 10: surrounding whitespace is stripped, a sign may lead,
  then come decimal digits, where single underscores may stand between two digits;
  anything else is no literal. A literal of more than \<open>sys.get_int_max_str_digits()\<close>
  digits, 4300 unless the interpreter is told otherwise, which the program does not do,
  is refused as well. (The program needs Python 3.12, for the line break inside the
  f-string of \<open>main\<close>; the limit exists since 3.11.) Both refusals are a \<open>ValueError\<close>.
\<close>

datatype int_parse = NoLiteral | TooManyDigits nat | IntValue int

definition max_str_digits :: nat where
  "max_str_digits = 4300"

definition is_space :: "char \<Rightarrow> bool" where
  "is_space c =
     (let n = (of_char c :: nat)
      in (9 \<le> n \<and> n \<le> 13) \<or> (28 \<le> n \<and> n \<le> 32) \<or> n = 133 \<or> n = 160)"

definition is_digit :: "char \<Rightarrow> bool" where
  "is_digit c = (let n = (of_char c :: nat) in 48 \<le> n \<and> n \<le> 57)"

definition digit_value :: "char \<Rightarrow> nat" where
  "digit_value c = (of_char c :: nat) - 48"

definition strip :: "string \<Rightarrow> string" where
  "strip s = rev (dropWhile is_space (rev (dropWhile is_space s)))"

fun digits_tail_ok :: "string \<Rightarrow> bool" where
  "digits_tail_ok [] = True"
| "digits_tail_ok (c # cs) =
     (if c = CHR ''_''
      then (case cs of [] \<Rightarrow> False | d # ds \<Rightarrow> is_digit d \<and> digits_tail_ok ds)
      else is_digit c \<and> digits_tail_ok cs)"

fun digits_ok :: "string \<Rightarrow> bool" where
  "digits_ok [] = False"
| "digits_ok (c # cs) = (is_digit c \<and> digits_tail_ok cs)"

definition digits_value :: "string \<Rightarrow> nat" where
  "digits_value ds = foldl (\<lambda>a c. 10 * a + digit_value c) 0 (filter (\<lambda>c. c \<noteq> CHR ''_'') ds)"

definition digit_count :: "string \<Rightarrow> nat" where
  "digit_count ds = length (filter (\<lambda>c. c \<noteq> CHR ''_'') ds)"

definition digits_result :: "bool \<Rightarrow> string \<Rightarrow> int_parse" where
  "digits_result negative ds =
     (if \<not> digits_ok ds then NoLiteral
      else if max_str_digits < digit_count ds then TooManyDigits (digit_count ds)
      else IntValue (if negative then - int (digits_value ds) else int (digits_value ds)))"

definition int_of_string :: "string \<Rightarrow> int_parse" where
  "int_of_string s =
     (case strip s of
        [] \<Rightarrow> NoLiteral
      | c # cs \<Rightarrow>
          if c = CHR ''-'' then digits_result True cs
          else if c = CHR ''+'' then digits_result False cs
          else digits_result False (c # cs))"

text \<open>\<open>sep.join(xs)\<close>\<close>

fun join :: "string \<Rightarrow> string list \<Rightarrow> string" where
  "join sep [] = []"
| "join sep [x] = x"
| "join sep (x # y # ys) = x @ sep @ join sep (y # ys)"

text \<open>
  \<open>repr(s)\<close> of a string: single quotes, unless the string has a single quote and no
  double quote; the quote, the backslash, tab, newline and carriage return are escaped
  by a backslash, every other non-printable character as \<open>\xhh\<close>.
\<close>

definition hex_digit :: "nat \<Rightarrow> char" where
  "hex_digit n = ''0123456789abcdef'' ! n"

definition hex2 :: "char \<Rightarrow> string" where
  "hex2 c = [hex_digit ((of_char c :: nat) div 16), hex_digit ((of_char c :: nat) mod 16)]"

definition repr_char :: "char \<Rightarrow> char \<Rightarrow> string" where
  "repr_char quote c =
     (let n = (of_char c :: nat)
      in if c = quote \<or> c = CHR 0x5C then [CHR 0x5C, c]
         else if c = CHR 0x09 then [CHR 0x5C, CHR ''t'']
         else if c = CHR 0x0A then [CHR 0x5C, CHR ''n'']
         else if c = CHR 0x0D then [CHR 0x5C, CHR ''r'']
         else if n < 32 \<or> n = 127 then [CHR 0x5C, CHR ''x''] @ hex2 c
         else if n < 127 then [c]
         else if n \<le> 160 \<or> n = 173 then [CHR 0x5C, CHR ''x''] @ hex2 c
         else [c])"

definition repr_str :: "string \<Rightarrow> string" where
  "repr_str s =
     (let quote = (if CHR 0x27 \<in> set s \<and> CHR 0x22 \<notin> set s then CHR 0x22 else CHR 0x27)
      in quote # concat (map (repr_char quote) s) @ [quote])"

fun py_repr :: "pyval \<Rightarrow> string" where
  "py_repr PNone = ''None''"
| "py_repr (PBool b) = (if b then ''True'' else ''False'')"
| "py_repr (PInt i) = str_int i"
| "py_repr (PStr s) = repr_str s"
| "py_repr (PList xs) = ''['' @ join '', '' (map py_repr xs) @ '']''"
| "py_repr (PDict kvs) =
     ''{'' @ join '', '' (map (\<lambda>kv. repr_str (fst kv) @ '': '' @ py_repr (snd kv)) kvs) @ ''}''"

text \<open>\<open>str(v)\<close>: a string is itself, every other value is its \<open>repr\<close>.\<close>

definition py_str :: "pyval \<Rightarrow> string" where
  "py_str v = (case v of PStr s \<Rightarrow> s | _ \<Rightarrow> py_repr v)"

text \<open>
  \<open>int(v)\<close>: a string is parsed, an integer is itself, a boolean is 0 or 1; \<open>None\<close>,
  lists and dictionaries raise \<open>TypeError\<close>. The message for a string that is no
  literal shows at most 200 characters of its \<open>repr\<close>.
\<close>

definition invalid_literal :: "string \<Rightarrow> error" where
  "invalid_literal s =
     ValueError (''invalid literal for int() with base 10: '' @ take 200 (repr_str s))"

definition exceeds_limit :: "nat \<Rightarrow> error" where
  "exceeds_limit n =
     ValueError (''Exceeds the limit (4300 digits) for integer string conversion: value has ''
       @ nat_digits n @ '' digits; use sys.set_int_max_str_digits() to increase the limit'')"

fun py_int :: "pyval \<Rightarrow> error + int" where
  "py_int (PStr s) =
     (case int_of_string s of
        NoLiteral \<Rightarrow> Inl (invalid_literal s)
      | TooManyDigits n \<Rightarrow> Inl (exceeds_limit n)
      | IntValue i \<Rightarrow> Inr i)"
| "py_int (PInt i) = Inr i"
| "py_int (PBool b) = Inr (if b then 1 else 0)"
| "py_int PNone = Inl TypeError"
| "py_int (PList _) = Inl TypeError"
| "py_int (PDict _) = Inl TypeError"

text \<open>Truth value of a value, as \<open>if v:\<close> tests it.\<close>

fun truthy :: "pyval \<Rightarrow> bool" where
  "truthy PNone = False"
| "truthy (PBool b) = b"
| "truthy (PInt i) = (i \<noteq> 0)"
| "truthy (PStr s) = (s \<noteq> [])"
| "truthy (PList xs) = (xs \<noteq> [])"
| "truthy (PDict kvs) = (kvs \<noteq> [])"

section \<open>The JSON loader\<close>

text \<open>
  \<open>v[k]\<close> with a string \<open>k\<close>: a dictionary looks the key up and raises \<open>KeyError\<close>
  when it is missing; a list or a string takes integer indices only, and \<open>None\<close>,
  booleans and integers are not subscriptable (\<open>TypeError\<close>). The keys of a
  dictionary are distinct, so \<open>map_of\<close> finds the one binding.
\<close>

fun subscript :: "pyval \<Rightarrow> string \<Rightarrow> error + pyval" where
  "subscript (PDict kvs) k = (case map_of kvs k of None \<Rightarrow> Inl (KeyError k) | Some v \<Rightarrow> Inr v)"
| "subscript _ k = Inl TypeError"

text \<open>
  \<open>for x in v\<close>: a list yields its elements, a dictionary its keys, a string its
  characters; the other values are not iterable.
\<close>

fun py_iter :: "pyval \<Rightarrow> error + pyval list" where
  "py_iter (PList xs) = Inr xs"
| "py_iter (PDict kvs) = Inr (map (\<lambda>kv. PStr (fst kv)) kvs)"
| "py_iter (PStr s) = Inr (map (\<lambda>c. PStr [c]) s)"
| "py_iter _ = Inl TypeError"

text \<open>\<open>[Student(s["id"], s["name"], s["room"]) for s in students_json]\<close>, element by
  element: the first exception ends the comprehension.\<close>

fun json_students :: "pyval list \<Rightarrow> error + Student list" where
  "json_students [] = Inr []"
| "json_students (s # ss) =
     (case subscript s ''id'' of Inl e \<Rightarrow> Inl e | Inr i \<Rightarrow>
     (case subscript s ''name'' of Inl e \<Rightarrow> Inl e | Inr n \<Rightarrow>
     (case subscript s ''room'' of Inl e \<Rightarrow> Inl e | Inr r \<Rightarrow>
     (case json_students ss of Inl e \<Rightarrow> Inl e | Inr rest \<Rightarrow>
        Inr (\<lparr>s_id = i, s_name = n, s_room_id = r\<rparr> # rest)))))"

text \<open>\<open>[Room(r["id"], r["name"]) for r in rooms_json]\<close>; \<open>students\<close> defaults to
  the empty list.\<close>

fun json_rooms :: "pyval list \<Rightarrow> error + Room list" where
  "json_rooms [] = Inr []"
| "json_rooms (r # rs) =
     (case subscript r ''id'' of Inl e \<Rightarrow> Inl e | Inr i \<Rightarrow>
     (case subscript r ''name'' of Inl e \<Rightarrow> Inl e | Inr n \<Rightarrow>
     (case json_rooms rs of Inl e \<Rightarrow> Inl e | Inr rest \<Rightarrow>
        Inr (\<lparr>r_id = i, r_name = n, r_students = []\<rparr> # rest))))"

text \<open>
  \<open>JsonDataLoader.load\<close>. Its inner function \<open>load_json\<close> opens a file and hands it
  to \<open>json.load\<close>; it is a parameter here, giving for a path the parsed document or
  the exception raised. Both files are read before any record is built.
\<close>

definition JsonDataLoader_load ::
  "(string \<Rightarrow> error + pyval) \<Rightarrow> string \<Rightarrow> string \<Rightarrow> error + (Student list \<times> Room list)" where
  "JsonDataLoader_load load_json students_path rooms_path =
     (case load_json students_path of Inl e \<Rightarrow> Inl e | Inr students_json \<Rightarrow>
     (case load_json rooms_path of Inl e \<Rightarrow> Inl e | Inr rooms_json \<Rightarrow>
     (case py_iter students_json of Inl e \<Rightarrow> Inl e | Inr ss \<Rightarrow>
     (case json_students ss of Inl e \<Rightarrow> Inl e | Inr students \<Rightarrow>
     (case py_iter rooms_json of Inl e \<Rightarrow> Inl e | Inr rs \<Rightarrow>
     (case json_rooms rs of Inl e \<Rightarrow> Inl e | Inr rooms \<Rightarrow>
        Inr (students, rooms)))))))"

text \<open>
  The records of a JSON source: a record is complete when it is an object with every
  required key, and then stands for the student, or the room, of its values.
\<close>

definition is_dict :: "pyval \<Rightarrow> bool" where
  "is_dict v = (case v of PDict _ \<Rightarrow> True | _ \<Rightarrow> False)"

definition has_key :: "pyval \<Rightarrow> string \<Rightarrow> bool" where
  "has_key v k = (case v of PDict kvs \<Rightarrow> map_of kvs k \<noteq> None | _ \<Rightarrow> False)"

definition complete_student :: "pyval \<Rightarrow> bool" where
  "complete_student v = (has_key v ''id'' \<and> has_key v ''name'' \<and> has_key v ''room'')"

definition complete_room :: "pyval \<Rightarrow> bool" where
  "complete_room v = (has_key v ''id'' \<and> has_key v ''name'')"

definition field :: "pyval \<Rightarrow> string \<Rightarrow> pyval" where
  "field v k = (case v of PDict kvs \<Rightarrow> (case map_of kvs k of Some x \<Rightarrow> x | None \<Rightarrow> PNone)
                | _ \<Rightarrow> PNone)"

definition student_of_record :: "pyval \<Rightarrow> Student" where
  "student_of_record v = \<lparr>s_id = field v ''id'', s_name = field v ''name'', s_room_id = field v ''room''\<rparr>"

definition room_of_record :: "pyval \<Rightarrow> Room" where
  "room_of_record v = \<lparr>r_id = field v ''id'', r_name = field v ''name'', r_students = []\<rparr>"

section \<open>The XML loader\<close>

text \<open>
  An element of \<open>xml.etree.ElementTree\<close>: its tag, its \<open>text\<close> attribute and its
  children in document order. The parser sets \<open>text\<close> to a string or to \<open>None\<close>;
  the serializer below assigns whatever the room holds. Attributes and tails are never
  read or written by the program and are left out.
\<close>

datatype element = Element (el_tag: string) (el_text: pyval) (el_children: "element list")

text \<open>
  \<open>ET.parse(path)\<close> is a parameter of the model: for a path it gives the root of the
  parsed document, or says that the file is not well-formed (\<open>ET.ParseError\<close>), or that
  it cannot be read.
\<close>

datatype parse_result = Parsed element | ParseError | Unreadable

text \<open>\<open>el.find(name).text\<close>: \<open>find\<close> gives the first child with that tag, or \<open>None\<close>,
  whose \<open>text\<close> attribute does not exist.\<close>

definition find_text :: "element \<Rightarrow> string \<Rightarrow> error + pyval" where
  "find_text el name =
     (case find (\<lambda>c. el_tag c = name) (el_children el) of
        None \<Rightarrow> Inl AttributeError
      | Some c \<Rightarrow> Inr (el_text c))"

text \<open>The keyword arguments of \<open>Student(...)\<close> are evaluated in the order written.\<close>

definition student_of_element :: "element \<Rightarrow> error + Student" where
  "student_of_element student_el =
     (case find_text student_el ''id'' of Inl e \<Rightarrow> Inl e | Inr id_text \<Rightarrow>
     (case py_int id_text of Inl e \<Rightarrow> Inl e | Inr i \<Rightarrow>
     (case find_text student_el ''name'' of Inl e \<Rightarrow> Inl e | Inr n \<Rightarrow>
     (case find_text student_el ''room'' of Inl e \<Rightarrow> Inl e | Inr room_text \<Rightarrow>
     (case py_int room_text of Inl e \<Rightarrow> Inl e | Inr r \<Rightarrow>
        Inr \<lparr>s_id = PInt i, s_name = n, s_room_id = PInt r\<rparr>)))))"

definition room_of_element :: "element \<Rightarrow> error + Room" where
  "room_of_element room_el =
     (case find_text room_el ''id'' of Inl e \<Rightarrow> Inl e | Inr id_text \<Rightarrow>
     (case py_int id_text of Inl e \<Rightarrow> Inl e | Inr i \<Rightarrow>
     (case find_text room_el ''name'' of Inl e \<Rightarrow> Inl e | Inr n \<Rightarrow>
        Inr \<lparr>r_id = PInt i, r_name = n, r_students = []\<rparr>)))"

text \<open>The loops \<open>for student_el in tree.getroot()\<close> and \<open>for room_el in
  tree.getroot()\<close>, over the children of the root.\<close>

fun students_of_elements :: "element list \<Rightarrow> error + Student list" where
  "students_of_elements [] = Inr []"
| "students_of_elements (el # els) =
     (case student_of_element el of Inl e \<Rightarrow> Inl e | Inr student \<Rightarrow>
     (case students_of_elements els of Inl e \<Rightarrow> Inl e | Inr students \<Rightarrow>
        Inr (student # students)))"

fun rooms_of_elements :: "element list \<Rightarrow> error + Room list" where
  "rooms_of_elements [] = Inr []"
| "rooms_of_elements (el # els) =
     (case room_of_element el of Inl e \<Rightarrow> Inl e | Inr room \<Rightarrow>
     (case rooms_of_elements els of Inl e \<Rightarrow> Inl e | Inr rooms \<Rightarrow>
        Inr (room # rooms)))"

text \<open>
  \<open>parse_students\<close> and \<open>parse_rooms\<close>: only \<open>ET.ParseError\<close> is caught, and raised
  again as a \<open>ValueError\<close> whose message ends in the path; every other exception
  passes through.
\<close>

definition parse_students :: "(string \<Rightarrow> parse_result) \<Rightarrow> string \<Rightarrow> error + Student list" where
  "parse_students et_parse xml_path =
     (case et_parse xml_path of
        Parsed root \<Rightarrow> students_of_elements (el_children root)
      | ParseError \<Rightarrow> Inl (ValueError (''Error parsing XML file: '' @ xml_path))
      | Unreadable \<Rightarrow> Inl OSError)"

definition parse_rooms :: "(string \<Rightarrow> parse_result) \<Rightarrow> string \<Rightarrow> error + Room list" where
  "parse_rooms et_parse xml_path =
     (case et_parse xml_path of
        Parsed root \<Rightarrow> rooms_of_elements (el_children root)
      | ParseError \<Rightarrow> Inl (ValueError (''Error parsing XML file: '' @ xml_path))
      | Unreadable \<Rightarrow> Inl OSError)"

text \<open>\<open>XmlDataLoader.load\<close>: the students file first, then the rooms file.\<close>

definition XmlDataLoader_load ::
  "(string \<Rightarrow> parse_result) \<Rightarrow> string \<Rightarrow> string \<Rightarrow> error + (Student list \<times> Room list)" where
  "XmlDataLoader_load et_parse students_path rooms_path =
     (case parse_students et_parse students_path of Inl e \<Rightarrow> Inl e | Inr students \<Rightarrow>
     (case parse_rooms et_parse rooms_path of Inl e \<Rightarrow> Inl e | Inr rooms \<Rightarrow>
        Inr (students, rooms)))"

text \<open>Giving the children of a root other tags, to state that the tags are not read.\<close>

definition retag :: "(string \<Rightarrow> string) \<Rightarrow> element \<Rightarrow> element" where
  "retag f el = Element (f (el_tag el)) (el_text el) (el_children el)"

definition retag_children :: "(string \<Rightarrow> string) \<Rightarrow> element \<Rightarrow> element" where
  "retag_children f root = Element (el_tag root) (el_text root) (map (retag f) (el_children root))"

definition retag_source ::
  "(string \<Rightarrow> string) \<Rightarrow> (string \<Rightarrow> parse_result) \<Rightarrow> string \<Rightarrow> parse_result" where
  "retag_source f et_parse path =
     (case et_parse path of Parsed root \<Rightarrow> Parsed (retag_children f root) | r \<Rightarrow> r)"

text \<open>
  A child that carries the text elements a student, or a room, is built from: an \<open>id\<close>
  (and a \<open>room\<close>) whose text is an integer literal that \<open>int\<close> accepts, and a \<open>name\<close>.
\<close>

definition int_text :: "pyval \<Rightarrow> bool" where
  "int_text v =
     (case v of
        PStr s \<Rightarrow> (case int_of_string s of IntValue _ \<Rightarrow> True | _ \<Rightarrow> False)
      | _ \<Rightarrow> False)"

definition has_int_child :: "element \<Rightarrow> string \<Rightarrow> bool" where
  "has_int_child el name =
     (case find (\<lambda>c. el_tag c = name) (el_children el) of None \<Rightarrow> False | Some c \<Rightarrow> int_text (el_text c))"

definition has_child :: "element \<Rightarrow> string \<Rightarrow> bool" where
  "has_child el name = (find (\<lambda>c. el_tag c = name) (el_children el) \<noteq> None)"

definition carries_student :: "element \<Rightarrow> bool" where
  "carries_student el =
     (has_int_child el ''id'' \<and> has_child el ''name'' \<and> has_int_child el ''room'')"

definition carries_room :: "element \<Rightarrow> bool" where
  "carries_room el = (has_int_child el ''id'' \<and> has_child el ''name'')"

text \<open>A child that has the child elements of a record, whatever their text is.\<close>

definition has_student_children :: "element \<Rightarrow> bool" where
  "has_student_children el = (has_child el ''id'' \<and> has_child el ''name'' \<and> has_child el ''room'')"

definition has_room_children :: "element \<Rightarrow> bool" where
  "has_room_children el = (has_child el ''id'' \<and> has_child el ''name'')"

text \<open>The record that the text elements of a child stand for.\<close>

definition child_text :: "element \<Rightarrow> string \<Rightarrow> pyval" where
  "child_text el name =
     (case find (\<lambda>c. el_tag c = name) (el_children el) of None \<Rightarrow> PNone | Some c \<Rightarrow> el_text c)"

definition text_int :: "pyval \<Rightarrow> int" where
  "text_int v =
     (case v of
        PStr s \<Rightarrow> (case int_of_string s of IntValue i \<Rightarrow> i | _ \<Rightarrow> 0)
      | _ \<Rightarrow> 0)"

definition student_of_fields :: "element \<Rightarrow> Student" where
  "student_of_fields el =
     \<lparr>s_id = PInt (text_int (child_text el ''id'')), s_name = child_text el ''name'',
      s_room_id = PInt (text_int (child_text el ''room''))\<rparr>"

definition room_of_fields :: "element \<Rightarrow> Room" where
  "room_of_fields el =
     \<lparr>r_id = PInt (text_int (child_text el ''id'')), r_name = child_text el ''name'',
      r_students = []\<rparr>"

section \<open>The JSON serializer\<close>

text \<open>
  \<open>dataclasses.asdict\<close>: a dictionary of the fields in the order of their declaration,
  applied again to every dataclass inside a list; the other values are copied.
\<close>

definition asdict_Student :: "Student \<Rightarrow> pyval" where
  "asdict_Student s = PDict [(''id'', s_id s), (''name'', s_name s), (''room_id'', s_room_id s)]"

definition asdict_Room :: "Room \<Rightarrow> pyval" where
  "asdict_Room r =
     PDict [(''id'', r_id r), (''name'', r_name r),
            (''students'', PList (map asdict_Student (r_students r)))]"

text \<open>
  \<open>json.dumps(v, indent=4)\<close>, with the defaults \<open>ensure_ascii=True\<close> and
  \<open>sort_keys=False\<close>. A string is written in double quotes, with the quote, the
  backslash and the control characters escaped and every character outside the printable
  ASCII range written as \<open>\u00hh\<close>.
\<close>

definition escape_char :: "char \<Rightarrow> string" where
  "escape_char c =
     (if c = CHR 0x5C then [CHR 0x5C, CHR 0x5C]
      else if c = CHR 0x22 then [CHR 0x5C, CHR 0x22]
      else if c = CHR 0x08 then [CHR 0x5C, CHR ''b'']
      else if c = CHR 0x0C then [CHR 0x5C, CHR ''f'']
      else if c = CHR 0x0A then [CHR 0x5C, CHR ''n'']
      else if c = CHR 0x0D then [CHR 0x5C, CHR ''r'']
      else if c = CHR 0x09 then [CHR 0x5C, CHR ''t'']
      else if 32 \<le> (of_char c :: nat) \<and> (of_char c :: nat) \<le> 126 then [c]
      else [CHR 0x5C, CHR ''u'', CHR ''0'', CHR ''0''] @ hex2 c)"

definition encode_basestring_ascii :: "string \<Rightarrow> string" where
  "encode_basestring_ascii s = CHR 0x22 # concat (map escape_char s) @ [CHR 0x22]"

text \<open>
  With an indent, a non-empty list or dictionary opens a line for each item at the next
  level, \<open>indent * level\<close> spaces deep, separates the items by a comma, and closes on a
  line of its own at the current level. The item separator is \<open>,\<close> and the key
  separator \<open>: \<close>.
\<close>

definition newline_indent :: "nat \<Rightarrow> nat \<Rightarrow> string" where
  "newline_indent indent level = CHR 0x0A # replicate (indent * level) CHR '' ''"

fun iterencode :: "nat \<Rightarrow> nat \<Rightarrow> pyval \<Rightarrow> string" where
  "iterencode indent level PNone = ''null''"
| "iterencode indent level (PBool b) = (if b then ''true'' else ''false'')"
| "iterencode indent level (PInt i) = str_int i"
| "iterencode indent level (PStr s) = encode_basestring_ascii s"
| "iterencode indent level (PList xs) =
     (if xs = [] then ''[]''
      else ''['' @ newline_indent indent (Suc level)
           @ join ('','' @ newline_indent indent (Suc level))
               (map (iterencode indent (Suc level)) xs)
           @ newline_indent indent level @ '']'')"
| "iterencode indent level (PDict kvs) =
     (if kvs = [] then ''{}''
      else ''{'' @ newline_indent indent (Suc level)
           @ join ('','' @ newline_indent indent (Suc level))
               (map (\<lambda>kv. encode_basestring_ascii (fst kv) @ '': ''
                          @ iterencode indent (Suc level) (snd kv)) kvs)
           @ newline_indent indent level @ ''}'')"

definition json_dumps :: "nat \<Rightarrow> pyval \<Rightarrow> string" where
  "json_dumps indent v = iterencode indent 0 v"

text \<open>
  \<open>JsonDataSerializer.serialize\<close>. Every \<open>pyval\<close> can be written as JSON, so no
  exception is raised.
\<close>

definition rooms_as_dictionary :: "Room list \<Rightarrow> pyval" where
  "rooms_as_dictionary combined_rooms = PList (map asdict_Room combined_rooms)"

definition JsonDataSerializer_serialize :: "Room list \<Rightarrow> error + string" where
  "JsonDataSerializer_serialize combined_rooms =
     Inr (json_dumps 4 (rooms_as_dictionary combined_rooms))"

text \<open>
  The output format in the words of the specification, written out line by line for
  rooms and students whose identifiers are integers and whose names are strings: an
  array with one object per room, keys \<open>id\<close>, \<open>name\<close>, \<open>students\<close>, the students an
  array of objects with keys \<open>id\<close>, \<open>name\<close>, \<open>room_id\<close>, nested by four spaces a
  level.
\<close>

definition spaces :: "nat \<Rightarrow> string" where
  "spaces n = replicate n CHR '' ''"

definition int_field :: "pyval \<Rightarrow> string" where
  "int_field v = (case v of PInt i \<Rightarrow> str_int i | _ \<Rightarrow> [])"

definition str_field :: "pyval \<Rightarrow> string" where
  "str_field v = (case v of PStr s \<Rightarrow> encode_basestring_ascii s | _ \<Rightarrow> [])"

definition lines :: "string list \<Rightarrow> string" where
  "lines ls = join [CHR 0x0A] ls"

definition student_lines :: "Student \<Rightarrow> string" where
  "student_lines s = lines
     [spaces 12 @ ''{'',
      spaces 16 @ [CHR 0x22] @ ''id'' @ [CHR 0x22] @ '': '' @ int_field (s_id s) @ '','',
      spaces 16 @ [CHR 0x22] @ ''name'' @ [CHR 0x22] @ '': '' @ str_field (s_name s) @ '','',
      spaces 16 @ [CHR 0x22] @ ''room_id'' @ [CHR 0x22] @ '': '' @ int_field (s_room_id s),
      spaces 12 @ ''}'']"

definition students_array :: "Student list \<Rightarrow> string" where
  "students_array ss =
     (if ss = [] then ''[]''
      else lines [''['', join ('','' @ [CHR 0x0A]) (map student_lines ss), spaces 8 @ '']''])"

definition room_lines :: "Room \<Rightarrow> string" where
  "room_lines r = lines
     [spaces 4 @ ''{'',
      spaces 8 @ [CHR 0x22] @ ''id'' @ [CHR 0x22] @ '': '' @ int_field (r_id r) @ '','',
      spaces 8 @ [CHR 0x22] @ ''name'' @ [CHR 0x22] @ '': '' @ str_field (r_name r) @ '','',
      spaces 8 @ [CHR 0x22] @ ''students'' @ [CHR 0x22] @ '': '' @ students_array (r_students r),
      spaces 4 @ ''}'']"

definition rooms_array :: "Room list \<Rightarrow> string" where
  "rooms_array rooms =
     (if rooms = [] then ''[]''
      else lines [''['', join ('','' @ [CHR 0x0A]) (map room_lines rooms), '']''])"

section \<open>The XML serializer\<close>

text \<open>
  The tree that \<open>XmlDataSerializer.serialize\<close> builds with \<open>ET.Element\<close> and
  \<open>ET.SubElement\<close>; a new element has no text (\<open>None\<close>), and \<open>SubElement\<close> appends
  to the children of its parent.
\<close>

definition student_element :: "Student \<Rightarrow> element" where
  "student_element student =
     Element ''Student'' PNone
       [Element ''id'' (PStr (py_str (s_id student))) [],
        Element ''name'' (s_name student) [],
        Element ''room'' (PStr (py_str (s_room_id student))) []]"

definition room_element :: "Room \<Rightarrow> element" where
  "room_element room =
     Element ''Room'' PNone
       [Element ''id'' (PStr (py_str (r_id room))) [],
        Element ''name'' (r_name room) [],
        Element ''Students'' PNone (map student_element (r_students room))]"

definition rooms_element :: "Room list \<Rightarrow> element" where
  "rooms_element combined_rooms = Element ''Rooms'' PNone (map room_element combined_rooms)"

text \<open>
  \<open>ET.tostring(root, encoding="unicode")\<close> for elements with plain tags, no attributes
  and no tails, as built above; no XML declaration is written. A text that is false
  (\<open>None\<close>, the empty string, but also \<open>0\<close> or an empty list) is not written at all,
  and an element without text and children is written in the short form. A true text
  is escaped when it is a string, and raises \<open>TypeError\<close> when it is not.
\<close>

definition escape_cdata_char :: "char \<Rightarrow> string" where
  "escape_cdata_char c =
     (if c = CHR ''&'' then ''&amp;''
      else if c = CHR ''<'' then ''&lt;''
      else if c = CHR ''>'' then ''&gt;''
      else [c])"

definition escape_cdata :: "pyval \<Rightarrow> error + string" where
  "escape_cdata v = (case v of PStr s \<Rightarrow> Inr (concat (map escape_cdata_char s)) | _ \<Rightarrow> Inl TypeError)"

fun concat_results :: "(error + string) list \<Rightarrow> error + string" where
  "concat_results [] = Inr []"
| "concat_results (Inl e # rs) = Inl e"
| "concat_results (Inr s # rs) =
     (case concat_results rs of Inl e \<Rightarrow> Inl e | Inr t \<Rightarrow> Inr (s @ t))"

fun serialize_xml :: "element \<Rightarrow> error + string" where
  "serialize_xml (Element tg txt elems) =
     (if truthy txt \<or> elems \<noteq> []
      then (case (if truthy txt then escape_cdata txt else Inr []) of
              Inl e \<Rightarrow> Inl e
            | Inr t \<Rightarrow>
                (case concat_results (map serialize_xml elems) of
                   Inl e \<Rightarrow> Inl e
                 | Inr body \<Rightarrow> Inr (''<'' @ tg @ ''>'' @ t @ body @ ''</'' @ tg @ ''>'')))
      else Inr (''<'' @ tg @ '' />''))"

definition XmlDataSerializer_serialize :: "Room list \<Rightarrow> error + string" where
  "XmlDataSerializer_serialize combined_rooms = serialize_xml (rooms_element combined_rooms)"

text \<open>
  A room as a loader returns it, without students; an integer whose numeral \<open>int\<close>
  reads back, having no more digits than the limit; and the rooms whose names, and whose
  students' names, are strings or \<open>None\<close> (the XML loader returns \<open>None\<close> for a
  \<open>name\<close> element without text).
\<close>

definition clear_students :: "Room \<Rightarrow> Room" where
  "clear_students r = r\<lparr>r_students := []\<rparr>"

definition within_limit :: "pyval \<Rightarrow> bool" where
  "within_limit v =
     (case v of PInt i \<Rightarrow> length (nat_digits (nat \<bar>i\<bar>)) \<le> max_str_digits | _ \<Rightarrow> False)"

definition text_or_none :: "pyval \<Rightarrow> bool" where
  "text_or_none v = (case v of PNone \<Rightarrow> True | PStr _ \<Rightarrow> True | _ \<Rightarrow> False)"

definition names_are_text :: "Room \<Rightarrow> bool" where
  "names_are_text r =
     (text_or_none (r_name r) \<and> list_all (\<lambda>s. text_or_none (s_name s)) (r_students r))"

section \<open>The serializers on the objects of the interpreter\<close>

text \<open>
  The combine step assigns to \<open>room.students\<close>, and rooms with one identifier share one
  list of students; the XML serializer builds a tree of elements in place. So the
  serializers are also given here as they run on the objects of the interpreter: a heap
  maps addresses to objects, a room holds the address of its list of students, a list
  and an element hold the addresses of their items and children. The values of the
  other attributes are values of type \<open>pyval\<close>. \<open>free_addr\<close> is the address of the next
  object to be created: every address below it is taken, and no address is used twice.
\<close>

type_synonym addr = nat

datatype obj =
    RoomObj pyval pyval addr
  | StudentObj pyval pyval pyval
  | ListObj "addr list"
  | ElementObj string pyval "addr list"

record heap =
  objs :: "addr \<rightharpoonup> obj"
  free_addr :: addr

text \<open>
  Reading an attribute: \<open>room.id\<close>, \<open>room.name\<close>, \<open>student.room_id\<close>, \<open>room.students\<close>.
  An object without the attribute raises \<open>AttributeError\<close>; nothing in the serializers
  checks the class of the object, so \<open>.id\<close> and \<open>.name\<close> are read from a student as
  from a room.
\<close>

definition attr_id :: "heap \<Rightarrow> addr \<Rightarrow> error + pyval" where
  "attr_id h a =
     (case objs h a of
        Some (RoomObj i _ _) \<Rightarrow> Inr i
      | Some (StudentObj i _ _) \<Rightarrow> Inr i
      | _ \<Rightarrow> Inl AttributeError)"

definition attr_name :: "heap \<Rightarrow> addr \<Rightarrow> error + pyval" where
  "attr_name h a =
     (case objs h a of
        Some (RoomObj _ n _) \<Rightarrow> Inr n
      | Some (StudentObj _ n _) \<Rightarrow> Inr n
      | _ \<Rightarrow> Inl AttributeError)"

definition attr_room_id :: "heap \<Rightarrow> addr \<Rightarrow> error + pyval" where
  "attr_room_id h a =
     (case objs h a of Some (StudentObj _ _ r) \<Rightarrow> Inr r | _ \<Rightarrow> Inl AttributeError)"

definition attr_students :: "heap \<Rightarrow> addr \<Rightarrow> error + addr" where
  "attr_students h a =
     (case objs h a of Some (RoomObj _ _ s) \<Rightarrow> Inr s | _ \<Rightarrow> Inl AttributeError)"

text \<open>
  \<open>for x in obj\<close>: a list gives its items, an element its children, and an object of
  one of the two dataclasses is not iterable. The loop runs over the items found when it
  starts: the bodies of the loops below write to elements created by the same call only,
  so no body changes the sequence its loop runs over.
\<close>

definition iterate :: "heap \<Rightarrow> addr \<Rightarrow> error + addr list" where
  "iterate h a =
     (case objs h a of
        Some (ListObj items) \<Rightarrow> Inr items
      | Some (ElementObj _ _ elems) \<Rightarrow> Inr elems
      | _ \<Rightarrow> Inl TypeError)"

text \<open>
  Statements in sequence: each one takes the heap and returns a value or an exception,
  and the heap it leaves. An exception ends the call; what was written before stays.
\<close>

definition bind_h ::
  "(heap \<Rightarrow> (error + 'a) \<times> heap) \<Rightarrow> ('a \<Rightarrow> heap \<Rightarrow> (error + 'b) \<times> heap)
     \<Rightarrow> heap \<Rightarrow> (error + 'b) \<times> heap" where
  "bind_h m f h = (case m h of (Inl e, h') \<Rightarrow> (Inl e, h') | (Inr x, h') \<Rightarrow> f x h')"

definition read_h :: "(heap \<Rightarrow> error + 'a) \<Rightarrow> heap \<Rightarrow> (error + 'a) \<times> heap" where
  "read_h f h = (f h, h)"

definition write_h :: "(heap \<Rightarrow> heap) \<Rightarrow> heap \<Rightarrow> (error + unit) \<times> heap" where
  "write_h g h = (Inr (), g h)"

text \<open>
  \<open>ET.Element(tag)\<close> creates an element without text and children.
  \<open>ET.SubElement(parent, tag)\<close> creates one and appends it to the children of
  \<open>parent\<close>, which must be an element. \<open>el.text = v\<close> stores any value.
\<close>

definition new_object :: "obj \<Rightarrow> heap \<Rightarrow> addr \<times> heap" where
  "new_object ob h =
     (free_addr h, h\<lparr>objs := (objs h)(free_addr h \<mapsto> ob), free_addr := Suc (free_addr h)\<rparr>)"

definition append_child :: "addr \<Rightarrow> addr \<Rightarrow> heap \<Rightarrow> heap" where
  "append_child parent child h =
     (case objs h parent of
        Some (ElementObj tg txt elems) \<Rightarrow>
          h\<lparr>objs := (objs h)(parent \<mapsto> ElementObj tg txt (elems @ [child]))\<rparr>
      | _ \<Rightarrow> h)"

definition SubElement :: "addr \<Rightarrow> string \<Rightarrow> heap \<Rightarrow> (error + addr) \<times> heap" where
  "SubElement parent tg h =
     (case objs h parent of
        Some (ElementObj _ _ _) \<Rightarrow>
          (let (el, h') = new_object (ElementObj tg PNone []) h
           in (Inr el, append_child parent el h'))
      | _ \<Rightarrow> (Inl TypeError, h))"

definition set_text :: "addr \<Rightarrow> pyval \<Rightarrow> heap \<Rightarrow> heap" where
  "set_text el v h =
     (case objs h el of
        Some (ElementObj tg _ elems) \<Rightarrow> h\<lparr>objs := (objs h)(el \<mapsto> ElementObj tg v elems)\<rparr>
      | _ \<Rightarrow> h)"

definition SubElement_text ::
  "addr \<Rightarrow> string \<Rightarrow> (heap \<Rightarrow> error + pyval) \<Rightarrow> heap \<Rightarrow> (error + unit) \<times> heap" where
  "SubElement_text parent tg expr =
     bind_h (SubElement parent tg) (\<lambda>el.
     bind_h (read_h expr) (\<lambda>v.
     write_h (set_text el v)))"

text \<open>\<open>str(e)\<close> for an expression \<open>e\<close> that may raise.\<close>

definition str_of :: "error + pyval \<Rightarrow> error + pyval" where
  "str_of r = (case r of Inl e \<Rightarrow> Inl e | Inr v \<Rightarrow> Inr (PStr (py_str v)))"

text \<open>A \<open>for\<close> loop over a sequence read beforehand.\<close>

fun for_each ::
  "('a \<Rightarrow> heap \<Rightarrow> (error + unit) \<times> heap) \<Rightarrow> 'a list \<Rightarrow> heap \<Rightarrow> (error + unit) \<times> heap" where
  "for_each body [] h = (Inr (), h)"
| "for_each body (x # xs) h =
     (case body x h of
        (Inl e, h') \<Rightarrow> (Inl e, h')
      | (Inr _, h') \<Rightarrow> for_each body xs h')"

text \<open>
  The body of the inner loop of \<open>XmlDataSerializer.serialize\<close>, for one student, and the
  body of the outer loop, for one room: \<open>room_head\<close> is the body up to the creation of
  the \<open>Students\<close> element, whose address it returns.
\<close>

definition student_body :: "addr \<Rightarrow> addr \<Rightarrow> heap \<Rightarrow> (error + unit) \<times> heap" where
  "student_body room_students student =
     bind_h (SubElement room_students ''Student'') (\<lambda>student_el.
     bind_h (SubElement_text student_el ''id'' (\<lambda>h. str_of (attr_id h student))) (\<lambda>_.
     bind_h (SubElement_text student_el ''name'' (\<lambda>h. attr_name h student)) (\<lambda>_.
     SubElement_text student_el ''room'' (\<lambda>h. str_of (attr_room_id h student)))))"

definition room_head :: "addr \<Rightarrow> addr \<Rightarrow> heap \<Rightarrow> (error + addr) \<times> heap" where
  "room_head root room =
     bind_h (SubElement root ''Room'') (\<lambda>sub_root.
     bind_h (SubElement_text sub_root ''id'' (\<lambda>h. str_of (attr_id h room))) (\<lambda>_.
     bind_h (SubElement_text sub_root ''name'' (\<lambda>h. attr_name h room)) (\<lambda>_.
     SubElement sub_root ''Students'')))"

definition room_body :: "addr \<Rightarrow> addr \<Rightarrow> heap \<Rightarrow> (error + unit) \<times> heap" where
  "room_body root room =
     bind_h (room_head root room) (\<lambda>room_students.
     bind_h (read_h (\<lambda>h. attr_students h room)) (\<lambda>students.
     bind_h (read_h (\<lambda>h. iterate h students)) (\<lambda>items.
     for_each (student_body room_students) items)))"

text \<open>
  \<open>ET.tostring(root, encoding="unicode")\<close> on the heap: \<open>serialize_xml\<close> above, read from
  the objects. The serializer of the library calls itself once for every level of
  nesting; \<open>depth\<close> is the number of nested calls that the interpreter still allows, and
  \<open>RecursionError\<close> is raised when it is used up.
\<close>

fun tostring :: "nat \<Rightarrow> heap \<Rightarrow> addr \<Rightarrow> error + string" where
  "tostring 0 h a = Inl RecursionError"
| "tostring (Suc depth) h a =
     (case objs h a of
        Some (ElementObj tg txt elems) \<Rightarrow>
          (if truthy txt \<or> elems \<noteq> []
           then (case (if truthy txt then escape_cdata txt else Inr []) of
                   Inl e \<Rightarrow> Inl e
                 | Inr t \<Rightarrow>
                     (case concat_results (map (tostring depth h) elems) of
                        Inl e \<Rightarrow> Inl e
                      | Inr body \<Rightarrow> Inr (''<'' @ tg @ ''>'' @ t @ body @ ''</'' @ tg @ ''>'')))
           else Inr (''<'' @ tg @ '' />''))
      | _ \<Rightarrow> Inl TypeError)"

text \<open>\<open>XmlDataSerializer.serialize\<close> on the heap.\<close>

definition XmlDataSerializer_serialize_heap ::
  "nat \<Rightarrow> addr \<Rightarrow> heap \<Rightarrow> (error + string) \<times> heap" where
  "XmlDataSerializer_serialize_heap depth_limit combined_rooms h =
     (let (root, h') = new_object (ElementObj ''Rooms'' PNone []) h
      in bind_h (read_h (\<lambda>h. iterate h combined_rooms)) (\<lambda>rooms.
         bind_h (for_each (room_body root) rooms) (\<lambda>_.
         read_h (\<lambda>h. tostring depth_limit h root))) h')"

text \<open>
  \<open>dataclasses.asdict\<close> on the heap. It copies: an object of a dataclass becomes a
  dictionary of its fields, a list becomes a list of the copies of its items, each one
  level deeper, so that a list that contains itself ends in \<open>RecursionError\<close>; at the top
  it accepts objects of dataclasses only. The copies are values, which nothing but
  \<open>json.dumps\<close> ever reaches, so they are not put on the heap. An element among the data
  would be copied as it is and then refused with a \<open>TypeError\<close> by \<open>json.dumps\<close>; the
  exception is raised here where the element is met.
\<close>

fun sequence :: "(error + 'a) list \<Rightarrow> error + 'a list" where
  "sequence [] = Inr []"
| "sequence (Inl e # rs) = Inl e"
| "sequence (Inr x # rs) = (case sequence rs of Inl e \<Rightarrow> Inl e | Inr xs \<Rightarrow> Inr (x # xs))"

fun asdict_inner :: "nat \<Rightarrow> heap \<Rightarrow> addr \<Rightarrow> error + pyval" where
  "asdict_inner 0 h a = Inl RecursionError"
| "asdict_inner (Suc depth) h a =
     (case objs h a of
        Some (StudentObj i n r) \<Rightarrow>
          Inr (PDict [(''id'', i), (''name'', n), (''room_id'', r)])
      | Some (RoomObj i n students) \<Rightarrow>
          (case asdict_inner depth h students of
             Inl e \<Rightarrow> Inl e
           | Inr v \<Rightarrow> Inr (PDict [(''id'', i), (''name'', n), (''students'', v)]))
      | Some (ListObj items) \<Rightarrow>
          (case sequence (map (asdict_inner depth h) items) of
             Inl e \<Rightarrow> Inl e
           | Inr vs \<Rightarrow> Inr (PList vs))
      | _ \<Rightarrow> Inl TypeError)"

definition asdict_heap :: "nat \<Rightarrow> heap \<Rightarrow> addr \<Rightarrow> error + pyval" where
  "asdict_heap depth_limit h a =
     (case objs h a of
        Some (RoomObj _ _ _) \<Rightarrow> asdict_inner depth_limit h a
      | Some (StudentObj _ _ _) \<Rightarrow> asdict_inner depth_limit h a
      | _ \<Rightarrow> Inl TypeError)"

text \<open>
  \<open>JsonDataSerializer.serialize\<close> on the heap: the list comprehension, then
  \<open>json.dumps\<close>. No statement writes to the heap.
\<close>

definition JsonDataSerializer_serialize_heap ::
  "nat \<Rightarrow> addr \<Rightarrow> heap \<Rightarrow> (error + string) \<times> heap" where
  "JsonDataSerializer_serialize_heap depth_limit combined_rooms =
     bind_h (read_h (\<lambda>h. iterate h combined_rooms)) (\<lambda>rooms.
     bind_h (read_h (\<lambda>h. sequence (map (asdict_heap depth_limit h) rooms)))
       (\<lambda>rooms_as_dictionary.
     read_h (\<lambda>h. Inr (json_dumps 4 (PList rooms_as_dictionary)))))"

text \<open>
  The rooms that a reference stands for, as values: what the serializers of the sections
  above take as their argument.
\<close>

definition student_of_heap :: "heap \<Rightarrow> addr \<Rightarrow> Student" where
  "student_of_heap h a =
     (case objs h a of
        Some (StudentObj i n r) \<Rightarrow> \<lparr>s_id = i, s_name = n, s_room_id = r\<rparr>
      | _ \<Rightarrow> \<lparr>s_id = PNone, s_name = PNone, s_room_id = PNone\<rparr>)"

definition items_of_heap :: "heap \<Rightarrow> addr \<Rightarrow> addr list" where
  "items_of_heap h a = (case objs h a of Some (ListObj items) \<Rightarrow> items | _ \<Rightarrow> [])"

definition room_of_heap :: "heap \<Rightarrow> addr \<Rightarrow> Room" where
  "room_of_heap h a =
     (case objs h a of
        Some (RoomObj i n students) \<Rightarrow>
          \<lparr>r_id = i, r_name = n,
           r_students = map (student_of_heap h) (items_of_heap h students)\<rparr>
      | _ \<Rightarrow> \<lparr>r_id = PNone, r_name = PNone, r_students = []\<rparr>)"

definition rooms_of_heap :: "heap \<Rightarrow> addr \<Rightarrow> Room list" where
  "rooms_of_heap h combined_rooms = map (room_of_heap h) (items_of_heap h combined_rooms)"

text \<open>
  A combined room list as \<open>combine_rooms\<close> leaves it: the reference is to a list of rooms,
  every room holds a list of students, and all of them have been created. Two rooms may
  hold the same list, and a list may hold one object twice.
\<close>

definition is_Student :: "heap \<Rightarrow> addr \<Rightarrow> bool" where
  "is_Student h a =
     (a < free_addr h \<and> (case objs h a of Some (StudentObj _ _ _) \<Rightarrow> True | _ \<Rightarrow> False))"

definition is_Student_list :: "heap \<Rightarrow> addr \<Rightarrow> bool" where
  "is_Student_list h a =
     (a < free_addr h \<and>
      (case objs h a of Some (ListObj items) \<Rightarrow> list_all (is_Student h) items | _ \<Rightarrow> False))"

definition is_Room :: "heap \<Rightarrow> addr \<Rightarrow> bool" where
  "is_Room h a =
     (a < free_addr h \<and>
      (case objs h a of Some (RoomObj _ _ students) \<Rightarrow> is_Student_list h students | _ \<Rightarrow> False))"

definition is_Room_list :: "heap \<Rightarrow> addr \<Rightarrow> bool" where
  "is_Room_list h a =
     (a < free_addr h \<and>
      (case objs h a of Some (ListObj items) \<Rightarrow> list_all (is_Room h) items | _ \<Rightarrow> False))"

text \<open>
  \<open>old_kept h h'\<close>: every object that exists in \<open>h\<close> is the same in \<open>h'\<close>; a call that
  takes \<open>h\<close> to \<open>h'\<close> may have created objects, and has changed none that was there.
\<close>

definition old_kept :: "heap \<Rightarrow> heap \<Rightarrow> bool" where
  "old_kept h h' =
     (free_addr h \<le> free_addr h' \<and> (\<forall>b < free_addr h. objs h' b = objs h b))"

text \<open>
  Two calls of a serializer on the same reference, the second on the heap that the first
  has left.
\<close>

definition serialize_twice ::
  "(addr \<Rightarrow> heap \<Rightarrow> (error + string) \<times> heap) \<Rightarrow> addr \<Rightarrow> heap
     \<Rightarrow> (error + string) \<times> (error + string)" where
  "serialize_twice serialize combined_rooms h =
     (let (first_output, h') = serialize combined_rooms h;
          (second_output, h'') = serialize combined_rooms h'
      in (first_output, second_output))"

text \<open>
  \<open>stored_in lo hi h a t\<close>: the objects reached from the element at \<open>a\<close> form the tree
  \<open>t\<close>, and all lie at the addresses from \<open>lo\<close> up to \<open>hi\<close>. \<open>fits n t\<close>: the tree \<open>t\<close>
  has at most \<open>n\<close> levels.
\<close>

fun stored_in :: "addr \<Rightarrow> addr \<Rightarrow> heap \<Rightarrow> addr \<Rightarrow> element \<Rightarrow> bool" where
  "stored_in lo hi h a (Element tg txt ts) =
     (lo \<le> a \<and> a < hi \<and>
      (case objs h a of
         Some (ElementObj tg' txt' elems) \<Rightarrow>
           tg' = tg \<and> txt' = txt \<and> list_all2 (\<lambda>c t. stored_in lo hi h c t) elems ts
       | _ \<Rightarrow> False))"

fun fits :: "nat \<Rightarrow> element \<Rightarrow> bool" where
  "fits 0 t = False"
| "fits (Suc n) (Element tg txt ts) = list_all (fits n) ts"

text \<open>
  What one pass of a loop body does, and what a whole loop does: new subtrees under the
  parent \<open>p\<close>, appended to its children, and no other change to an object that was there.
\<close>

definition appends :: "heap \<Rightarrow> addr \<Rightarrow> element \<Rightarrow> heap \<Rightarrow> bool" where
  "appends h p t h' =
     (free_addr h \<le> free_addr h' \<and>
      (\<forall>b < free_addr h. b \<noteq> p \<longrightarrow> objs h' b = objs h b) \<and>
      (case objs h p of
         Some (ElementObj pt px pcs) \<Rightarrow> objs h' p = Some (ElementObj pt px (pcs @ [free_addr h]))
       | _ \<Rightarrow> False) \<and>
      stored_in (free_addr h) (free_addr h') h' (free_addr h) t)"

definition appends_all :: "heap \<Rightarrow> addr \<Rightarrow> element list \<Rightarrow> heap \<Rightarrow> bool" where
  "appends_all h p ts h' =
     (free_addr h \<le> free_addr h' \<and>
      (\<forall>b < free_addr h. b \<noteq> p \<longrightarrow> objs h' b = objs h b) \<and>
      (case objs h p of
         Some (ElementObj pt px pcs) \<Rightarrow>
           (\<exists>as. objs h' p = Some (ElementObj pt px (pcs @ as)) \<and>
                 list_all2 (stored_in (free_addr h) (free_addr h') h') as ts)
       | _ \<Rightarrow> False))"

section \<open>Example data\<close>

text \<open>The example of the specification: three students, three rooms.\<close>

definition example_students :: "Student list" where
  "example_students =
     [\<lparr>s_id = PInt 1, s_name = PStr ''Ann'', s_room_id = PInt 10\<rparr>,
      \<lparr>s_id = PInt 2, s_name = PStr ''Bo'', s_room_id = PInt 20\<rparr>,
      \<lparr>s_id = PInt 3, s_name = PStr ''Cy'', s_room_id = PInt 10\<rparr>]"

definition example_rooms :: "Room list" where
  "example_rooms =
     [\<lparr>r_id = PInt 10, r_name = PStr ''Alpha'', r_students = []\<rparr>,
      \<lparr>r_id = PInt 20, r_name = PStr ''Beta'', r_students = []\<rparr>,
      \<lparr>r_id = PInt 30, r_name = PStr ''Gamma'', r_students = []\<rparr>]"

text \<open>A student of a room that is not in the list, and two rooms with one identifier.\<close>

definition stray_student :: Student where
  "stray_student = \<lparr>s_id = PInt 4, s_name = PStr ''Di'', s_room_id = PInt 99\<rparr>"

definition twin_rooms :: "Room list" where
  "twin_rooms =
     [\<lparr>r_id = PInt 10, r_name = PStr ''Alpha'', r_students = []\<rparr>,
      \<lparr>r_id = PInt 10, r_name = PStr ''Annex'', r_students = []\<rparr>]"

text \<open>A combined list of two rooms, the second without students.\<close>

definition one_room_combined :: "Room list" where
  "one_room_combined =
     [\<lparr>r_id = PInt 10, r_name = PStr ''Alpha'', r_students =
         [\<lparr>s_id = PInt 1, s_name = PStr ''Ann'', s_room_id = PInt 10\<rparr>]\<rparr>,
      \<lparr>r_id = PInt 30, r_name = PStr ''Gamma'', r_students = []\<rparr>]"

text \<open>
  JSON sources: one with values of the wrong types, one whose room record has no name;
  and the sources that give back what the JSON serializer wrote, as the rooms file or as
  both files.
\<close>

definition mistyped_source :: "string \<Rightarrow> error + pyval" where
  "mistyped_source path =
     (if path = ''students.json''
      then Inr (PList [PDict [(''id'', PStr ''one''), (''name'', PInt 7), (''room'', PNone)]])
      else Inr (PList [PDict [(''id'', PList []), (''name'', PStr ''Alpha'')]]))"

definition incomplete_source :: "string \<Rightarrow> error + pyval" where
  "incomplete_source path =
     (if path = ''students.json''
      then Inr (PList [PDict [(''id'', PInt 1), (''name'', PStr ''Ann''), (''room'', PInt 10)]])
      else Inr (PList [PDict [(''id'', PInt 10)]]))"

definition reload_json :: "Room list \<Rightarrow> string \<Rightarrow> error + pyval" where
  "reload_json rooms path =
     (if path = ''rooms.json'' then Inr (rooms_as_dictionary rooms) else Inr (PList []))"

definition same_json :: "Room list \<Rightarrow> string \<Rightarrow> error + pyval" where
  "same_json rooms path = Inr (rooms_as_dictionary rooms)"

text \<open>
  XML sources: children with unusual tags, a rooms file or a students file that is not
  well-formed, a student without \<open>id\<close> next to a rooms file that is not
  well-formed, and the source that gives back the tree the XML serializer built.
\<close>

definition text_element :: "string \<Rightarrow> string \<Rightarrow> element" where
  "text_element name s = Element name (PStr s) []"

definition odd_tags_source :: "string \<Rightarrow> parse_result" where
  "odd_tags_source path =
     (if path = ''students.xml''
      then Parsed (Element ''People'' PNone
             [Element ''Pupil'' PNone
                [text_element ''id'' ''1'', text_element ''name'' ''Ann'',
                 text_element ''room'' ''10'']])
      else if path = ''rooms.xml''
      then Parsed (Element ''Building'' PNone
             [Element ''Chamber'' PNone
                [text_element ''id'' ''10'', text_element ''name'' ''Alpha'']])
      else Unreadable)"

definition rename_all :: "string \<Rightarrow> string" where
  "rename_all t = ''Anything''"

definition broken_rooms_source :: "string \<Rightarrow> parse_result" where
  "broken_rooms_source path =
     (if path = ''students.xml''
      then Parsed (Element ''Students'' PNone
             [Element ''Student'' PNone
                [text_element ''id'' ''1'', text_element ''name'' ''Ann'',
                 text_element ''room'' ''10'']])
      else if path = ''rooms.xml'' then ParseError
      else Unreadable)"

definition broken_students_source :: "string \<Rightarrow> parse_result" where
  "broken_students_source path = (if path = ''students.xml'' then ParseError else Unreadable)"

definition student_without_id_source :: "string \<Rightarrow> parse_result" where
  "student_without_id_source path =
     (if path = ''students.xml''
      then Parsed (Element ''Students'' PNone
             [Element ''Student'' PNone
                [text_element ''name'' ''Ann'', text_element ''room'' ''10'']])
      else if path = ''rooms.xml'' then ParseError
      else Unreadable)"

text \<open>
  Two students files that are well-formed: in the first a child with all three text
  elements is followed by one without \<open>id\<close>; in the second the only child has all three
  text elements, and the text of its \<open>id\<close> is a word.
\<close>

definition ann_element :: element where
  "ann_element =
     Element ''Student'' PNone
       [text_element ''id'' ''1'', text_element ''name'' ''Ann'', text_element ''room'' ''10'']"

definition bo_element :: element where
  "bo_element =
     Element ''Student'' PNone [text_element ''name'' ''Bo'', text_element ''room'' ''20'']"

definition cy_element :: element where
  "cy_element =
     Element ''Student'' PNone
       [text_element ''id'' ''abc'', text_element ''name'' ''Cy'', text_element ''room'' ''10'']"

definition sibling_without_id_source :: "string \<Rightarrow> parse_result" where
  "sibling_without_id_source path =
     (if path = ''students.xml''
      then Parsed (Element ''Students'' PNone [ann_element, bo_element])
      else Parsed (Element ''Rooms'' PNone []))"

definition word_id_source :: "string \<Rightarrow> parse_result" where
  "word_id_source path =
     (if path = ''students.xml''
      then Parsed (Element ''Students'' PNone [cy_element])
      else Parsed (Element ''Rooms'' PNone []))"

definition reload_xml :: "Room list \<Rightarrow> string \<Rightarrow> parse_result" where
  "reload_xml rooms path =
     (if path = ''rooms.xml'' then Parsed (rooms_element rooms)
      else Parsed (Element ''Students'' PNone []))"

text \<open>
  A heap given by the list of its objects, the address of an object being its position;
  the heap of \<open>one_room_combined\<close>, whose list of rooms is at address 5.
\<close>

definition heap_of :: "obj list \<Rightarrow> heap" where
  "heap_of obs =
     \<lparr>objs = (\<lambda>a. if a < length obs then Some (obs ! a) else None), free_addr = length obs\<rparr>"

definition example_heap :: heap where
  "example_heap = heap_of
     [StudentObj (PInt 1) (PStr ''Ann'') (PInt 10),
      ListObj [0],
      ListObj [],
      RoomObj (PInt 10) (PStr ''Alpha'') 1,
      RoomObj (PInt 30) (PStr ''Gamma'') 2,
      ListObj [3, 4]]"

section \<open>Properties of the combine step\<close>

lemma dict_key_int: "is_int v \<Longrightarrow> dict_key v = Inr (KNum (case v of PInt i \<Rightarrow> i | _ \<Rightarrow> 0))"
  by (cases v) (simp_all add: is_int_def)

lemma dict_key_int_eq:
  "is_int v \<Longrightarrow> is_int w \<Longrightarrow> dict_key v = dict_key w \<longleftrightarrow> v = w"
  by (cases v; cases w) (simp_all add: is_int_def)

lemma group_students_int:
  "\<forall>s \<in> set ss. is_int (s_room_id s) \<Longrightarrow>
   \<exists>m'. group_students ss m = Inr m' \<and>
     (\<forall>v. is_int v \<longrightarrow>
        (\<forall>k. dict_key v = Inr k \<longrightarrow>
           map_get m' k = map_get m k @ filter (\<lambda>s. s_room_id s = v) ss))"
proof (induction ss arbitrary: m)
  case Nil
  then show ?case by simp
next
  case (Cons s ss)
  from Cons.prems have si: "is_int (s_room_id s)" and rest: "\<forall>x \<in> set ss. is_int (s_room_id x)"
    by simp_all
  from si obtain ks where ks: "dict_key (s_room_id s) = Inr ks"
    using dict_key_int by blast
  from Cons.IH [OF rest, of "append_to m ks s"] obtain m' where
    m': "group_students ss (append_to m ks s) = Inr m'" and
    look: "\<forall>v. is_int v \<longrightarrow> (\<forall>k. dict_key v = Inr k \<longrightarrow>
        map_get m' k = map_get (append_to m ks s) k @ filter (\<lambda>s. s_room_id s = v) ss)"
    by blast
  have "map_get m' k = map_get m k @ filter (\<lambda>x. s_room_id x = v) (s # ss)"
    if v: "is_int v" and k: "dict_key v = Inr k" for v k
  proof -
    have eq: "k = ks \<longleftrightarrow> s_room_id s = v"
      using dict_key_int_eq [OF si v] ks k by auto
    have "map_get (append_to m ks s) k =
          map_get m k @ (if s_room_id s = v then [s] else [])"
      using eq by (auto simp: map_get_def append_to_def)
    with look v k show ?thesis by simp
  qed
  with ks m' show ?case by simp
qed

lemma assign_students_int:
  "\<forall>r \<in> set rs. is_int (r_id r) \<Longrightarrow>
   assign_students rs m =
     Inr (map (\<lambda>r. r\<lparr>r_students := map_get m (KNum (case r_id r of PInt i \<Rightarrow> i | _ \<Rightarrow> 0))\<rparr>) rs)"
  by (induction rs) (simp_all add: dict_key_int)

lemma combine_int:
  assumes S: "\<forall>s \<in> set S. is_int (s_room_id s)" and R: "\<forall>r \<in> set R. is_int (r_id r)"
  shows "combine S R =
     Inr (map (\<lambda>r. r\<lparr>r_students := filter (\<lambda>s. s_room_id s = r_id r) S\<rparr>) R)"
proof -
  from group_students_int [OF S, of Map.empty] obtain m' where
    m': "group_students S Map.empty = Inr m'" and
    look: "\<And>v k. is_int v \<Longrightarrow> dict_key v = Inr k \<Longrightarrow>
        map_get m' k = filter (\<lambda>s. s_room_id s = v) S"
    by (auto simp: map_get_def)
  have "map_get m' (KNum (case r_id r of PInt i \<Rightarrow> i | _ \<Rightarrow> 0)) =
        filter (\<lambda>s. s_room_id s = r_id r) S" if "r \<in> set R" for r
    using look [of "r_id r"] R that dict_key_int by blast
  then have "map (\<lambda>r. r\<lparr>r_students := map_get m' (KNum (case r_id r of PInt i \<Rightarrow> i | _ \<Rightarrow> 0))\<rparr>) R =
        map (\<lambda>r. r\<lparr>r_students := filter (\<lambda>s. s_room_id s = r_id r) S\<rparr>) R"
    by simp
  with m' assign_students_int [OF R, of m'] show ?thesis
    by (simp add: combine_def)
qed

text \<open>
  C1: for students and rooms whose room identifiers are integers, the combine step
  returns the rooms in their order, each with exactly the students whose room identifier
  equals the room's identifier, in the order they have in the student list; and so does
  \<open>combine_rooms\<close> for a loader that returns these students and rooms.
\<close>

theorem combine_attaches_matching_students:
  assumes "\<forall>s \<in> set S. is_int (s_room_id s)" and "\<forall>r \<in> set R. is_int (r_id r)"
  shows "combine S R =
           Inr (map (\<lambda>r. r\<lparr>r_students := filter (\<lambda>s. s_room_id s = r_id r) S\<rparr>) R) \<and>
         (data_loader students_path rooms_path = Inr (S, R) \<longrightarrow>
          combine_rooms data_loader students_path rooms_path =
            Inr (map (\<lambda>r. r\<lparr>r_students := filter (\<lambda>s. s_room_id s = r_id r) S\<rparr>) R))"
  using combine_int [OF assms] by (simp add: combine_rooms_def)

theorem combine_attaches_matching_students_witness:
  "list_all (\<lambda>s. is_int (s_room_id s)) example_students \<and>
   list_all (\<lambda>r. is_int (r_id r)) example_rooms \<and>
   combine example_students example_rooms =
     Inr [\<lparr>r_id = PInt 10, r_name = PStr ''Alpha'', r_students =
            [\<lparr>s_id = PInt 1, s_name = PStr ''Ann'', s_room_id = PInt 10\<rparr>,
             \<lparr>s_id = PInt 3, s_name = PStr ''Cy'', s_room_id = PInt 10\<rparr>]\<rparr>,
          \<lparr>r_id = PInt 20, r_name = PStr ''Beta'', r_students =
            [\<lparr>s_id = PInt 2, s_name = PStr ''Bo'', s_room_id = PInt 20\<rparr>]\<rparr>,
          \<lparr>r_id = PInt 30, r_name = PStr ''Gamma'', r_students = []\<rparr>]"
proof -
  have S: "\<forall>s \<in> set example_students. is_int (s_room_id s)"
    by (simp add: example_students_def is_int_def)
  have R: "\<forall>r \<in> set example_rooms. is_int (r_id r)"
    by (simp add: example_rooms_def is_int_def)
  show ?thesis
    using S R combine_attaches_matching_students [OF S R, THEN conjunct1]
    by (simp add: list_all_iff example_students_def example_rooms_def)
qed

text \<open>
  C2: a room whose identifier is the room identifier of no student is in the result, at
  its place, with the empty list as its students.
\<close>

theorem combine_keeps_room_without_students:
  assumes "\<forall>s \<in> set S. is_int (s_room_id s)" and "\<forall>r \<in> set R. is_int (r_id r)"
    and "i < length R" and "\<forall>s \<in> set S. s_room_id s \<noteq> r_id (R ! i)"
  shows "\<exists>out. combine S R = Inr out \<and> length out = length R \<and>
           out ! i = (R ! i)\<lparr>r_students := []\<rparr>"
proof -
  have "filter (\<lambda>s. s_room_id s = r_id (R ! i)) S = []"
    using assms(4) by (simp add: filter_empty_conv)
  with combine_int [OF assms(1,2)] assms(3) show ?thesis by simp
qed

theorem combine_keeps_room_without_students_witness:
  "list_all (\<lambda>s. is_int (s_room_id s)) example_students \<and>
   list_all (\<lambda>r. is_int (r_id r)) example_rooms \<and>
   2 < length example_rooms \<and>
   list_all (\<lambda>s. s_room_id s \<noteq> r_id (example_rooms ! 2)) example_students \<and>
   (\<exists>out. combine example_students example_rooms = Inr out \<and> length out = length example_rooms \<and>
      out ! 2 = \<lparr>r_id = PInt 30, r_name = PStr ''Gamma'', r_students = []\<rparr>)"
proof -
  have S: "\<forall>s \<in> set example_students. is_int (s_room_id s)"
    by (simp add: example_students_def is_int_def)
  have R: "\<forall>r \<in> set example_rooms. is_int (r_id r)"
    by (simp add: example_rooms_def is_int_def)
  have i: "2 < length example_rooms"
    by (simp add: example_rooms_def)
  have none: "\<forall>s \<in> set example_students. s_room_id s \<noteq> r_id (example_rooms ! 2)"
    by (simp add: example_students_def example_rooms_def)
  have "example_rooms ! 2 = \<lparr>r_id = PInt 30, r_name = PStr ''Gamma'', r_students = []\<rparr>"
    by (simp add: example_rooms_def)
  with S R i none combine_keeps_room_without_students [OF S R i none] show ?thesis
    by (simp add: list_all_iff)
qed

text \<open>
  C3: for students and rooms whose room identifiers are integers the combine step
  returns a result, raising nothing, and a student whose room identifier is the
  identifier of no room is among the students of no room of the result.
\<close>

theorem combine_succeeds_and_drops_unmatched:
  assumes "\<forall>s \<in> set S. is_int (s_room_id s)" and "\<forall>r \<in> set R. is_int (r_id r)"
  shows "\<exists>out. combine S R = Inr out \<and>
           (\<forall>s \<in> set S. (\<forall>r \<in> set R. r_id r \<noteq> s_room_id s) \<longrightarrow>
              (\<forall>r \<in> set out. s \<notin> set (r_students r)))"
  using combine_int [OF assms] by auto

theorem combine_succeeds_and_drops_unmatched_witness:
  "list_all (\<lambda>s. is_int (s_room_id s)) (example_students @ [stray_student]) \<and>
   list_all (\<lambda>r. is_int (r_id r)) example_rooms \<and>
   stray_student \<in> set (example_students @ [stray_student]) \<and>
   list_all (\<lambda>r. r_id r \<noteq> s_room_id stray_student) example_rooms \<and>
   (\<exists>out. combine (example_students @ [stray_student]) example_rooms = Inr out \<and>
      (\<forall>r \<in> set out. stray_student \<notin> set (r_students r)))"
proof -
  have S: "\<forall>s \<in> set (example_students @ [stray_student]). is_int (s_room_id s)"
    by (simp add: example_students_def stray_student_def is_int_def)
  have R: "\<forall>r \<in> set example_rooms. is_int (r_id r)"
    by (simp add: example_rooms_def is_int_def)
  have unmatched: "\<forall>r \<in> set example_rooms. r_id r \<noteq> s_room_id stray_student"
    by (simp add: example_rooms_def stray_student_def)
  from combine_succeeds_and_drops_unmatched [OF S R] obtain out where
    out: "combine (example_students @ [stray_student]) example_rooms = Inr out" and
    drop: "\<forall>s \<in> set (example_students @ [stray_student]).
             (\<forall>r \<in> set example_rooms. r_id r \<noteq> s_room_id s) \<longrightarrow>
             (\<forall>r \<in> set out. s \<notin> set (r_students r))"
    by blast
  from drop unmatched have "\<forall>r \<in> set out. stray_student \<notin> set (r_students r)"
    by simp
  with S R unmatched out show ?thesis by (simp add: list_all_iff)
qed

text \<open>
  C9: when two rooms of the list have the same identifier, the combine step returns a
  result in which each of the two has all the students with that room identifier.
\<close>

theorem combine_duplicate_rooms_share_students:
  assumes "\<forall>s \<in> set S. is_int (s_room_id s)" and "\<forall>r \<in> set R. is_int (r_id r)"
    and "i < length R" and "j < length R" and "i \<noteq> j" and "r_id (R ! i) = r_id (R ! j)"
  shows "\<exists>out. combine S R = Inr out \<and> length out = length R \<and>
           r_students (out ! i) = filter (\<lambda>s. s_room_id s = r_id (R ! i)) S \<and>
           r_students (out ! j) = r_students (out ! i)"
  using combine_int [OF assms(1,2)] assms(3,4,6) by simp

theorem combine_duplicate_rooms_share_students_witness:
  "list_all (\<lambda>s. is_int (s_room_id s)) example_students \<and>
   list_all (\<lambda>r. is_int (r_id r)) twin_rooms \<and>
   0 < length twin_rooms \<and> 1 < length twin_rooms \<and> (0::nat) \<noteq> 1 \<and>
   r_id (twin_rooms ! 0) = r_id (twin_rooms ! 1) \<and>
   (\<exists>out. combine example_students twin_rooms = Inr out \<and> length out = length twin_rooms \<and>
      r_students (out ! 0) =
        [\<lparr>s_id = PInt 1, s_name = PStr ''Ann'', s_room_id = PInt 10\<rparr>,
         \<lparr>s_id = PInt 3, s_name = PStr ''Cy'', s_room_id = PInt 10\<rparr>] \<and>
      r_students (out ! 1) = r_students (out ! 0))"
proof -
  have S: "\<forall>s \<in> set example_students. is_int (s_room_id s)"
    by (simp add: example_students_def is_int_def)
  have R: "\<forall>r \<in> set twin_rooms. is_int (r_id r)"
    by (simp add: twin_rooms_def is_int_def)
  have i: "0 < length twin_rooms" and j: "1 < length twin_rooms"
    by (simp_all add: twin_rooms_def)
  have ne: "(0::nat) \<noteq> 1" by simp
  have same: "r_id (twin_rooms ! 0) = r_id (twin_rooms ! 1)"
    by (simp add: twin_rooms_def)
  have "filter (\<lambda>s. s_room_id s = r_id (twin_rooms ! 0)) example_students =
        [\<lparr>s_id = PInt 1, s_name = PStr ''Ann'', s_room_id = PInt 10\<rparr>,
         \<lparr>s_id = PInt 3, s_name = PStr ''Cy'', s_room_id = PInt 10\<rparr>]"
    by (simp add: twin_rooms_def example_students_def)
  with S R i j same combine_duplicate_rooms_share_students [OF S R i j ne same]
  show ?thesis
    by (simp add: list_all_iff)
qed

section \<open>Properties of the JSON loader\<close>

lemma subscript_has_key:
  "has_key v k \<Longrightarrow> subscript v k = Inr (field v k)"
  by (cases v) (auto simp: has_key_def field_def)

lemma subscript_missing:
  "is_dict v \<Longrightarrow> \<not> has_key v k \<Longrightarrow> subscript v k = Inl (KeyError k)"
  by (cases v) (auto simp: has_key_def is_dict_def)

lemma json_students_complete:
  "list_all complete_student ss \<Longrightarrow> json_students ss = Inr (map student_of_record ss)"
  by (induction ss)
     (simp_all add: complete_student_def subscript_has_key student_of_record_def)

lemma json_rooms_complete:
  "list_all complete_room rs \<Longrightarrow> json_rooms rs = Inr (map room_of_record rs)"
  by (induction rs)
     (simp_all add: complete_room_def subscript_has_key room_of_record_def)

lemma json_student_missing:
  assumes "is_dict s" and "\<not> complete_student s"
  shows "\<exists>k \<in> {''id'', ''name'', ''room''}.
           subscript s ''id'' = Inl (KeyError k) \<or>
           (\<exists>i. subscript s ''id'' = Inr i \<and>
              (subscript s ''name'' = Inl (KeyError k) \<or>
               (\<exists>n. subscript s ''name'' = Inr n \<and> subscript s ''room'' = Inl (KeyError k))))"
proof (cases "has_key s ''id''")
  case False
  with assms(1) show ?thesis by (simp add: subscript_missing)
next
  case id: True
  show ?thesis
  proof (cases "has_key s ''name''")
    case False
    with assms(1) id show ?thesis by (simp add: subscript_missing subscript_has_key)
  next
    case True
    with id assms(2) have "\<not> has_key s ''room''" by (simp add: complete_student_def)
    with assms(1) id True show ?thesis by (simp add: subscript_missing subscript_has_key)
  qed
qed

lemma json_students_incomplete:
  "list_all is_dict ss \<Longrightarrow> \<not> list_all complete_student ss \<Longrightarrow>
   \<exists>k \<in> {''id'', ''name'', ''room''}. json_students ss = Inl (KeyError k)"
proof (induction ss)
  case Nil
  then show ?case by simp
next
  case (Cons s ss)
  show ?case
  proof (cases "complete_student s")
    case True
    with Cons obtain k where "k \<in> {''id'', ''name'', ''room''}" "json_students ss = Inl (KeyError k)"
      by auto
    with True show ?thesis
      by (auto simp: complete_student_def subscript_has_key)
  next
    case False
    from Cons.prems(1) have "is_dict s" by simp
    from json_student_missing [OF this False] show ?thesis
      by auto
  qed
qed

lemma json_rooms_incomplete:
  "list_all is_dict rs \<Longrightarrow> \<not> list_all complete_room rs \<Longrightarrow>
   \<exists>k \<in> {''id'', ''name''}. json_rooms rs = Inl (KeyError k)"
proof (induction rs)
  case Nil
  then show ?case by simp
next
  case (Cons r rs)
  show ?case
  proof (cases "complete_room r")
    case True
    with Cons obtain k where "k \<in> {''id'', ''name''}" "json_rooms rs = Inl (KeyError k)"
      by auto
    with True show ?thesis
      by (auto simp: complete_room_def subscript_has_key)
  next
    case False
    from Cons.prems(1) have d: "is_dict r" by simp
    show ?thesis
    proof (cases "has_key r ''id''")
      case False
      with d show ?thesis by (simp add: subscript_missing)
    next
      case True
      with False have "\<not> has_key r ''name''" by (simp add: complete_room_def)
      with d True show ?thesis by (simp add: subscript_missing subscript_has_key)
    qed
  qed
qed

text \<open>
  C4 (as amended): when both sources are arrays of objects, a record that lacks a
  required field makes the load fail with a \<open>KeyError\<close> for a required field, and
  when no field is missing the load succeeds with the values as they are in the
  source, whatever their types.
\<close>

theorem json_load_checks_presence_only:
  assumes "load_json students_path = Inr (PList ss)" and "load_json rooms_path = Inr (PList rs)"
    and "list_all is_dict ss" and "list_all is_dict rs"
  shows "(if list_all complete_student ss \<and> list_all complete_room rs
          then JsonDataLoader_load load_json students_path rooms_path =
                 Inr (map student_of_record ss, map room_of_record rs)
          else \<exists>k \<in> {''id'', ''name'', ''room''}.
                 JsonDataLoader_load load_json students_path rooms_path = Inl (KeyError k))"
proof (cases "list_all complete_student ss")
  case False
  from json_students_incomplete [OF assms(3) False] assms(1,2) False show ?thesis
    by (auto simp: JsonDataLoader_load_def)
next
  case students: True
  show ?thesis
  proof (cases "list_all complete_room rs")
    case True
    with students assms(1,2) show ?thesis
      by (simp add: JsonDataLoader_load_def json_students_complete json_rooms_complete)
  next
    case False
    from json_rooms_incomplete [OF assms(4) False] assms(1,2) students False show ?thesis
      by (auto simp: JsonDataLoader_load_def json_students_complete)
  qed
qed

theorem json_load_checks_presence_only_witness:
  "incomplete_source ''students.json'' =
     Inr (PList [PDict [(''id'', PInt 1), (''name'', PStr ''Ann''), (''room'', PInt 10)]]) \<and>
   incomplete_source ''rooms.json'' = Inr (PList [PDict [(''id'', PInt 10)]]) \<and>
   \<not> list_all complete_room [PDict [(''id'', PInt 10)]] \<and>
   JsonDataLoader_load incomplete_source ''students.json'' ''rooms.json'' = Inl (KeyError ''name'')"
proof -
  let ?ss = "[PDict [(''id'', PInt 1), (''name'', PStr ''Ann''), (''room'', PInt 10)]]"
  let ?rs = "[PDict [(''id'', PInt 10)]]"
  have s: "incomplete_source ''students.json'' = Inr (PList ?ss)"
    and r: "incomplete_source ''rooms.json'' = Inr (PList ?rs)"
    by (simp_all add: incomplete_source_def)
  have ds: "list_all is_dict ?ss" and dr: "list_all is_dict ?rs"
    by (simp_all add: is_dict_def)
  have inc: "\<not> list_all complete_room ?rs"
    by (simp add: complete_room_def has_key_def)
  from json_load_checks_presence_only [OF s r ds dr] inc
  obtain k where "JsonDataLoader_load incomplete_source ''students.json'' ''rooms.json'' = Inl (KeyError k)"
    by auto
  moreover have "JsonDataLoader_load incomplete_source ''students.json'' ''rooms.json'' = Inl (KeyError ''name'')"
    by (simp add: JsonDataLoader_load_def incomplete_source_def)
  ultimately show ?thesis using s r inc by simp
qed

text \<open>
  The claim as first stated fails: a student whose \<open>id\<close> is a string, whose
  \<open>name\<close> is a number and whose \<open>room\<close> is \<open>null\<close>, and a room whose \<open>id\<close> is a
  list, are loaded as they are.
\<close>

theorem json_load_accepts_wrong_types:
  "\<not> is_int (PStr ''one'') \<and> \<not> is_str (PInt 7) \<and>
   JsonDataLoader_load mistyped_source ''students.json'' ''rooms.json'' =
     Inr ([\<lparr>s_id = PStr ''one'', s_name = PInt 7, s_room_id = PNone\<rparr>],
          [\<lparr>r_id = PList [], r_name = PStr ''Alpha'', r_students = []\<rparr>])"
  by (simp add: JsonDataLoader_load_def mistyped_source_def is_int_def is_str_def)

section \<open>Properties of the XML loader\<close>

lemma find_text_retag: "find_text (retag f el) name = find_text el name"
  by (simp add: find_text_def retag_def)

lemma student_of_element_retag: "student_of_element (retag f el) = student_of_element el"
  by (simp add: student_of_element_def find_text_retag cong: sum.case_cong)

lemma room_of_element_retag: "room_of_element (retag f el) = room_of_element el"
  by (simp add: room_of_element_def find_text_retag cong: sum.case_cong)

lemma students_of_elements_retag:
  "students_of_elements (map (retag f) els) = students_of_elements els"
  by (induction els) (simp_all add: student_of_element_retag cong: sum.case_cong)

lemma rooms_of_elements_retag:
  "rooms_of_elements (map (retag f) els) = rooms_of_elements els"
  by (induction els) (simp_all add: room_of_element_retag cong: sum.case_cong)

lemma parse_students_retag:
  "parse_students (retag_source f et_parse) path = parse_students et_parse path"
  by (cases "et_parse path")
     (simp_all add: parse_students_def retag_source_def retag_children_def
        students_of_elements_retag)

lemma parse_rooms_retag:
  "parse_rooms (retag_source f et_parse) path = parse_rooms et_parse path"
  by (cases "et_parse path")
     (simp_all add: parse_rooms_def retag_source_def retag_children_def
        rooms_of_elements_retag)

lemma load_retag:
  "XmlDataLoader_load (retag_source f et_parse) sp rp = XmlDataLoader_load et_parse sp rp"
  by (simp add: XmlDataLoader_load_def parse_students_retag parse_rooms_retag
      cong: sum.case_cong)

lemma has_int_child_text:
  assumes "has_int_child el name"
  shows "find_text el name = Inr (child_text el name)"
    and "py_int (child_text el name) = Inr (text_int (child_text el name))"
  using assms
  by (auto simp: has_int_child_def find_text_def child_text_def int_text_def text_int_def
      split: option.splits pyval.splits int_parse.splits)

lemma has_child_text: "has_child el name \<Longrightarrow> find_text el name = Inr (child_text el name)"
  by (auto simp: has_child_def find_text_def child_text_def split: option.splits)

lemma student_of_element_carries:
  "carries_student el \<Longrightarrow> student_of_element el = Inr (student_of_fields el)"
  by (simp add: carries_student_def student_of_element_def student_of_fields_def
      has_int_child_text has_child_text)

lemma room_of_element_carries:
  "carries_room el \<Longrightarrow> room_of_element el = Inr (room_of_fields el)"
  by (simp add: carries_room_def room_of_element_def room_of_fields_def
      has_int_child_text has_child_text)

lemma students_of_elements_carry:
  "list_all carries_student els \<Longrightarrow> students_of_elements els = Inr (map student_of_fields els)"
  by (induction els) (simp_all add: student_of_element_carries)

lemma rooms_of_elements_carry:
  "list_all carries_room els \<Longrightarrow> rooms_of_elements els = Inr (map room_of_fields els)"
  by (induction els) (simp_all add: room_of_element_carries)

lemma student_without_children:
  "\<not> has_student_children el \<Longrightarrow> \<exists>e. student_of_element el = Inl e"
  by (auto simp: has_student_children_def has_child_def student_of_element_def find_text_def
      split: sum.splits option.splits)

lemma room_without_children:
  "\<not> has_room_children el \<Longrightarrow> \<exists>e. room_of_element el = Inl e"
  by (auto simp: has_room_children_def has_child_def room_of_element_def find_text_def
      split: sum.splits option.splits)

lemma students_of_elements_fail:
  "\<not> list_all has_student_children els \<Longrightarrow> \<exists>e. students_of_elements els = Inl e"
proof (induction els)
  case Nil
  then show ?case by simp
next
  case (Cons el els)
  show ?case
  proof (cases "has_student_children el")
    case True
    with Cons obtain e where "students_of_elements els = Inl e" by auto
    then show ?thesis by (simp split: sum.splits)
  next
    case False
    from student_without_children [OF this] show ?thesis by auto
  qed
qed

lemma rooms_of_elements_fail:
  "\<not> list_all has_room_children els \<Longrightarrow> \<exists>e. rooms_of_elements els = Inl e"
proof (induction els)
  case Nil
  then show ?case by simp
next
  case (Cons el els)
  show ?case
  proof (cases "has_room_children el")
    case True
    with Cons obtain e where "rooms_of_elements els = Inl e" by auto
    then show ?thesis by (simp split: sum.splits)
  next
    case False
    from room_without_children [OF this] show ?thesis by auto
  qed
qed

text \<open>
  C10 (as amended): the loader's result is the same when the children of the two roots
  are given any other tags; a child that carries the text elements of a record, the
  texts of \<open>id\<close> and \<open>room\<close> being integer literals that \<open>int\<close> accepts, is made into
  that record whatever its tag is; when every child carries them, the loader returns one
  record per child, in document order, whatever the tags are; and when some child lacks
  a required child element, the load fails as a whole.
\<close>

theorem xml_load_ignores_child_tags:
  "XmlDataLoader_load (retag_source f et_parse) students_path rooms_path =
     XmlDataLoader_load et_parse students_path rooms_path \<and>
   (carries_student el \<longrightarrow> student_of_element (retag f el) = Inr (student_of_fields el)) \<and>
   (carries_room el \<longrightarrow> room_of_element (retag f el) = Inr (room_of_fields el)) \<and>
   (et_parse students_path = Parsed students_root \<and> et_parse rooms_path = Parsed rooms_root \<and>
    list_all carries_student (el_children students_root) \<and>
    list_all carries_room (el_children rooms_root) \<longrightarrow>
    XmlDataLoader_load (retag_source f et_parse) students_path rooms_path =
      Inr (map student_of_fields (el_children students_root),
           map room_of_fields (el_children rooms_root))) \<and>
   (et_parse students_path = Parsed students_root \<and> et_parse rooms_path = Parsed rooms_root \<and>
    (\<not> list_all has_student_children (el_children students_root) \<or>
     \<not> list_all has_room_children (el_children rooms_root)) \<longrightarrow>
    (\<exists>e. XmlDataLoader_load (retag_source f et_parse) students_path rooms_path = Inl e))"
proof (intro conjI impI)
  show same: "XmlDataLoader_load (retag_source f et_parse) students_path rooms_path =
     XmlDataLoader_load et_parse students_path rooms_path"
    by (rule load_retag)
  show "student_of_element (retag f el) = Inr (student_of_fields el)" if "carries_student el"
    using that by (simp add: student_of_element_retag student_of_element_carries)
  show "room_of_element (retag f el) = Inr (room_of_fields el)" if "carries_room el"
    using that by (simp add: room_of_element_retag room_of_element_carries)
  show "XmlDataLoader_load (retag_source f et_parse) students_path rooms_path =
      Inr (map student_of_fields (el_children students_root),
           map room_of_fields (el_children rooms_root))"
    if "et_parse students_path = Parsed students_root \<and> et_parse rooms_path = Parsed rooms_root \<and>
        list_all carries_student (el_children students_root) \<and>
        list_all carries_room (el_children rooms_root)"
  proof -
    from that have "XmlDataLoader_load et_parse students_path rooms_path =
      Inr (map student_of_fields (el_children students_root),
           map room_of_fields (el_children rooms_root))"
      by (simp add: XmlDataLoader_load_def parse_students_def parse_rooms_def
          students_of_elements_carry rooms_of_elements_carry)
    with same show ?thesis by simp
  qed
  show "\<exists>e. XmlDataLoader_load (retag_source f et_parse) students_path rooms_path = Inl e"
    if a: "et_parse students_path = Parsed students_root \<and> et_parse rooms_path = Parsed rooms_root \<and>
        (\<not> list_all has_student_children (el_children students_root) \<or>
         \<not> list_all has_room_children (el_children rooms_root))"
  proof -
    have "\<exists>e. XmlDataLoader_load et_parse students_path rooms_path = Inl e"
    proof (cases "list_all has_student_children (el_children students_root)")
      case False
      from students_of_elements_fail [OF this] a show ?thesis
        by (auto simp: XmlDataLoader_load_def parse_students_def)
    next
      case True
      with a have "\<not> list_all has_room_children (el_children rooms_root)" by simp
      from rooms_of_elements_fail [OF this] a show ?thesis
        by (auto simp: XmlDataLoader_load_def parse_students_def parse_rooms_def
            split: sum.splits)
    qed
    with same show ?thesis by simp
  qed
qed

lemma carries_example:
  "carries_student (Element ''Pupil'' PNone
      [text_element ''id'' ''1'', text_element ''name'' ''Ann'', text_element ''room'' ''10''])"
  "carries_room (Element ''Chamber'' PNone
      [text_element ''id'' ''10'', text_element ''name'' ''Alpha''])"
  by code_simp+

theorem xml_load_ignores_child_tags_witness:
  "list_all carries_student
     [Element ''Pupil'' PNone
        [text_element ''id'' ''1'', text_element ''name'' ''Ann'', text_element ''room'' ''10'']] \<and>
   list_all carries_room
     [Element ''Chamber'' PNone [text_element ''id'' ''10'', text_element ''name'' ''Alpha'']] \<and>
   XmlDataLoader_load (retag_source rename_all odd_tags_source) ''students.xml'' ''rooms.xml'' =
     Inr ([\<lparr>s_id = PInt 1, s_name = PStr ''Ann'', s_room_id = PInt 10\<rparr>],
          [\<lparr>r_id = PInt 10, r_name = PStr ''Alpha'', r_students = []\<rparr>])"
proof -
  let ?sroot = "Element ''People'' PNone
             [Element ''Pupil'' PNone
                [text_element ''id'' ''1'', text_element ''name'' ''Ann'',
                 text_element ''room'' ''10'']]"
  let ?rroot = "Element ''Building'' PNone
             [Element ''Chamber'' PNone
                [text_element ''id'' ''10'', text_element ''name'' ''Alpha'']]"
  have s: "odd_tags_source ''students.xml'' = Parsed ?sroot"
    and r: "odd_tags_source ''rooms.xml'' = Parsed ?rroot"
    by (simp_all add: odd_tags_source_def)
  have cs: "list_all carries_student (el_children ?sroot)"
    and cr: "list_all carries_room (el_children ?rroot)"
    by (simp_all add: carries_example)
  have fs: "map student_of_fields (el_children ?sroot) =
      [\<lparr>s_id = PInt 1, s_name = PStr ''Ann'', s_room_id = PInt 10\<rparr>]"
    by code_simp
  have fr: "map room_of_fields (el_children ?rroot) =
      [\<lparr>r_id = PInt 10, r_name = PStr ''Alpha'', r_students = []\<rparr>]"
    by code_simp
  from xml_load_ignores_child_tags
    [where f = rename_all and et_parse = odd_tags_source and students_path = "''students.xml''"
       and rooms_path = "''rooms.xml''" and students_root = ?sroot and rooms_root = ?rroot]
    s r cs cr
  have "XmlDataLoader_load (retag_source rename_all odd_tags_source) ''students.xml'' ''rooms.xml'' =
      Inr (map student_of_fields (el_children ?sroot), map room_of_fields (el_children ?rroot))"
    by blast
  with fs fr cs cr show ?thesis by simp
qed

text \<open>
  The claim as first stated fails: in the first file the child for Ann carries all three
  text elements, and the load ends with the \<open>AttributeError\<close> of its sibling without
  \<open>id\<close>, so that Ann is not loaded; in the second file the child has all three text
  elements and is not loaded, since \<open>int\<close> refuses the text of its \<open>id\<close>.
\<close>

theorem xml_child_with_fields_not_loaded:
  "sibling_without_id_source ''students.xml'' =
     Parsed (Element ''Students'' PNone [ann_element, bo_element]) \<and>
   carries_student ann_element \<and>
   XmlDataLoader_load sibling_without_id_source ''students.xml'' ''rooms.xml'' =
     Inl AttributeError \<and>
   word_id_source ''students.xml'' = Parsed (Element ''Students'' PNone [cy_element]) \<and>
   has_student_children cy_element \<and>
   XmlDataLoader_load word_id_source ''students.xml'' ''rooms.xml'' =
     Inl (ValueError (''invalid literal for int() with base 10: '' @
            [CHR 0x27] @ ''abc'' @ [CHR 0x27]))"
  by code_simp

text \<open>
  C6 (as amended): each of the two parsers, given a file that is not well-formed, fails
  with the \<open>ValueError\<close> whose message ends in the path of that file. The loader fails
  with the one for the students file whenever that file is not well-formed, and with
  the one for the rooms file when that file is not well-formed and the students file,
  which is read first, has been loaded without an error.
\<close>

theorem xml_parse_error_names_file:
  "(et_parse path = ParseError \<longrightarrow>
      parse_students et_parse path = Inl (ValueError (''Error parsing XML file: '' @ path)) \<and>
      parse_rooms et_parse path = Inl (ValueError (''Error parsing XML file: '' @ path))) \<and>
   (et_parse students_path = ParseError \<longrightarrow>
      XmlDataLoader_load et_parse students_path rooms_path =
        Inl (ValueError (''Error parsing XML file: '' @ students_path))) \<and>
   (et_parse rooms_path = ParseError \<and> parse_students et_parse students_path = Inr students \<longrightarrow>
      XmlDataLoader_load et_parse students_path rooms_path =
        Inl (ValueError (''Error parsing XML file: '' @ rooms_path)))"
  by (simp add: XmlDataLoader_load_def parse_students_def parse_rooms_def)

theorem xml_parse_error_names_file_witness:
  "broken_students_source ''students.xml'' = ParseError \<and>
   XmlDataLoader_load broken_students_source ''students.xml'' ''rooms.xml'' =
     Inl (ValueError ''Error parsing XML file: students.xml'') \<and>
   broken_rooms_source ''rooms.xml'' = ParseError \<and>
   parse_students broken_rooms_source ''students.xml'' =
     Inr [\<lparr>s_id = PInt 1, s_name = PStr ''Ann'', s_room_id = PInt 10\<rparr>] \<and>
   XmlDataLoader_load broken_rooms_source ''students.xml'' ''rooms.xml'' =
     Inl (ValueError ''Error parsing XML file: rooms.xml'')"
proof -
  have s: "broken_students_source ''students.xml'' = ParseError"
    by (simp add: broken_students_source_def)
  have r: "broken_rooms_source ''rooms.xml'' = ParseError"
    by (simp add: broken_rooms_source_def)
  have st: "parse_students broken_rooms_source ''students.xml'' =
     Inr [\<lparr>s_id = PInt 1, s_name = PStr ''Ann'', s_room_id = PInt 10\<rparr>]"
    by code_simp
  from xml_parse_error_names_file
    [where et_parse = broken_students_source and students_path = "''students.xml''"
       and rooms_path = "''rooms.xml''"] s
  have 1: "XmlDataLoader_load broken_students_source ''students.xml'' ''rooms.xml'' =
     Inl (ValueError ''Error parsing XML file: students.xml'')"
    by simp
  from xml_parse_error_names_file
    [where et_parse = broken_rooms_source and students_path = "''students.xml''"
       and rooms_path = "''rooms.xml''"] r st
  have 2: "XmlDataLoader_load broken_rooms_source ''students.xml'' ''rooms.xml'' =
     Inl (ValueError ''Error parsing XML file: rooms.xml'')"
    by simp
  from s r st 1 2 show ?thesis by simp
qed

text \<open>
  The claim as first stated fails for the rooms file: when a student of the students
  file has no \<open>id\<close> element, the load ends with the \<open>AttributeError\<close> of that student
  and the rooms file, which is not well-formed, is never opened.
\<close>

theorem xml_rooms_parse_error_masked:
  "student_without_id_source ''rooms.xml'' = ParseError \<and>
   XmlDataLoader_load student_without_id_source ''students.xml'' ''rooms.xml'' =
     Inl AttributeError"
  by (simp add: student_without_id_source_def XmlDataLoader_load_def parse_students_def
      student_of_element_def find_text_def text_element_def)

section \<open>Properties of the JSON serializer\<close>

lemma join_prefix:
  "xs \<noteq> [] \<Longrightarrow> pre @ join (sep @ pre) (map f xs) = join sep (map (\<lambda>x. pre @ f x) xs)"
  by (induction xs rule: induct_list012) simp_all

lemma is_intE: "is_int v \<Longrightarrow> (\<And>i. v = PInt i \<Longrightarrow> P) \<Longrightarrow> P"
  by (cases v) (simp_all add: is_int_def)

lemma is_strE: "is_str v \<Longrightarrow> (\<And>s. v = PStr s \<Longrightarrow> P) \<Longrightarrow> P"
  by (cases v) (simp_all add: is_str_def)

lemma newline_indent_spaces: "newline_indent 4 level = CHR 0x0A # spaces (4 * level)"
  by (simp add: newline_indent_def spaces_def)

lemma encode_keys:
  "encode_basestring_ascii ''id'' = CHR 0x22 # ''id'' @ [CHR 0x22]"
  "encode_basestring_ascii ''name'' = CHR 0x22 # ''name'' @ [CHR 0x22]"
  "encode_basestring_ascii ''room_id'' = CHR 0x22 # ''room_id'' @ [CHR 0x22]"
  "encode_basestring_ascii ''students'' = CHR 0x22 # ''students'' @ [CHR 0x22]"
  by (simp_all add: encode_basestring_ascii_def escape_char_def)

lemma iterencode_student:
  assumes "well_typed_student s"
  shows "spaces 12 @ iterencode 4 3 (asdict_Student s) = student_lines s"
proof -
  from assms obtain i n r where "s_id s = PInt i" "s_name s = PStr n" "s_room_id s = PInt r"
    unfolding well_typed_student_def by (auto elim!: is_intE is_strE)
  then show ?thesis
    by (simp add: asdict_Student_def student_lines_def lines_def newline_indent_spaces
        int_field_def str_field_def encode_keys)
qed

lemma iterencode_list:
  "xs \<noteq> [] \<Longrightarrow>
   iterencode 4 level (PList xs) =
     ''['' @ [CHR 0x0A] @
     join ('','' @ [CHR 0x0A]) (map (\<lambda>x. spaces (4 * Suc level) @ iterencode 4 (Suc level) x) xs) @
     [CHR 0x0A] @ spaces (4 * level) @ '']''"
proof -
  assume ne: "xs \<noteq> []"
  have "spaces (4 * Suc level) @
        join (('','' @ [CHR 0x0A]) @ spaces (4 * Suc level)) (map (iterencode 4 (Suc level)) xs) =
        join ('','' @ [CHR 0x0A]) (map (\<lambda>x. spaces (4 * Suc level) @ iterencode 4 (Suc level) x) xs)"
    by (rule join_prefix [OF ne])
  with ne show ?thesis
    by (simp add: newline_indent_spaces)
qed

lemma iterencode_students:
  assumes "list_all well_typed_student ss"
  shows "iterencode 4 2 (PList (map asdict_Student ss)) = students_array ss"
proof (cases "ss = []")
  case True
  then show ?thesis by (simp add: students_array_def)
next
  case False
  have m: "map (\<lambda>x. spaces 12 @ iterencode 4 3 x) (map asdict_Student ss) = map student_lines ss"
    using assms by (simp add: list_all_iff iterencode_student)
  from False have "map asdict_Student ss \<noteq> []" by simp
  from iterencode_list [OF this, of 2] have
    "iterencode 4 2 (PList (map asdict_Student ss)) =
     ''['' @ [CHR 0x0A] @
     join ('','' @ [CHR 0x0A]) (map (\<lambda>x. spaces 12 @ iterencode 4 3 x) (map asdict_Student ss)) @
     [CHR 0x0A] @ spaces 8 @ '']''"
    by (simp add: numeral_3_eq_3)
  also have "\<dots> = students_array ss"
    unfolding m using False by (simp add: students_array_def lines_def)
  finally show ?thesis .
qed

lemma iterencode_room:
  assumes "well_typed_room r"
  shows "spaces 4 @ iterencode 4 (Suc 0) (asdict_Room r) = room_lines r"
proof -
  from assms obtain i n where f: "r_id r = PInt i" "r_name r = PStr n"
    and ss: "list_all well_typed_student (r_students r)"
    unfolding well_typed_room_def by (auto elim!: is_intE is_strE)
  have "iterencode 4 (Suc (Suc 0)) (PList (map asdict_Student (r_students r))) =
        students_array (r_students r)"
    using iterencode_students [OF ss] by (simp add: numeral_2_eq_2)
  with f show ?thesis
    by (simp add: asdict_Room_def room_lines_def lines_def newline_indent_spaces
        int_field_def str_field_def encode_keys)
qed

lemma iterencode_rooms:
  assumes "list_all well_typed_room rooms"
  shows "json_dumps 4 (rooms_as_dictionary rooms) = rooms_array rooms"
proof (cases "rooms = []")
  case True
  then show ?thesis by (simp add: rooms_array_def json_dumps_def rooms_as_dictionary_def)
next
  case False
  have m: "map (\<lambda>x. spaces 4 @ iterencode 4 (Suc 0) x) (map asdict_Room rooms) = map room_lines rooms"
    using assms by (simp add: list_all_iff iterencode_room)
  from False have "map asdict_Room rooms \<noteq> []" by simp
  from iterencode_list [OF this, of 0] have
    "iterencode 4 0 (PList (map asdict_Room rooms)) =
     ''['' @ [CHR 0x0A] @
     join ('','' @ [CHR 0x0A]) (map (\<lambda>x. spaces 4 @ iterencode 4 (Suc 0) x) (map asdict_Room rooms)) @
     [CHR 0x0A] @ '']''"
    by (simp add: spaces_def)
  also have "\<dots> = rooms_array rooms"
    unfolding m using False by (simp add: rooms_array_def lines_def)
  finally show ?thesis by (simp add: json_dumps_def rooms_as_dictionary_def)
qed

text \<open>
  C7: the serializer writes the array of the rooms in their order, one object per room
  with the keys \<open>id\<close>, \<open>name\<close>, \<open>students\<close> and nothing else, the students of a room in
  their order as objects with the keys \<open>id\<close>, \<open>name\<close>, \<open>room_id\<close>; and for rooms and
  students with integer identifiers and string names the text is the one laid out line
  by line with four spaces for each level of nesting.
\<close>

theorem json_serialize_shape_and_layout:
  "rooms_as_dictionary rooms =
     PList (map (\<lambda>r. PDict
       [(''id'', r_id r), (''name'', r_name r),
        (''students'', PList (map (\<lambda>s. PDict
           [(''id'', s_id s), (''name'', s_name s), (''room_id'', s_room_id s)])
           (r_students r)))]) rooms) \<and>
   JsonDataSerializer_serialize rooms = Inr (json_dumps 4 (rooms_as_dictionary rooms)) \<and>
   (list_all well_typed_room rooms \<longrightarrow>
      JsonDataSerializer_serialize rooms = Inr (rooms_array rooms))"
proof (intro conjI impI)
  have "asdict_Student = (\<lambda>s. PDict [(''id'', s_id s), (''name'', s_name s), (''room_id'', s_room_id s)])"
    by (rule ext) (simp add: asdict_Student_def)
  then show "rooms_as_dictionary rooms =
     PList (map (\<lambda>r. PDict
       [(''id'', r_id r), (''name'', r_name r),
        (''students'', PList (map (\<lambda>s. PDict
           [(''id'', s_id s), (''name'', s_name s), (''room_id'', s_room_id s)])
           (r_students r)))]) rooms)"
    by (simp add: rooms_as_dictionary_def asdict_Room_def)
  show "JsonDataSerializer_serialize rooms = Inr (json_dumps 4 (rooms_as_dictionary rooms))"
    by (simp add: JsonDataSerializer_serialize_def)
  show "JsonDataSerializer_serialize rooms = Inr (rooms_array rooms)"
    if "list_all well_typed_room rooms"
    using iterencode_rooms [OF that] by (simp add: JsonDataSerializer_serialize_def)
qed

theorem json_serialize_shape_and_layout_witness:
  \<open>list_all well_typed_room one_room_combined \<and>
   JsonDataSerializer_serialize one_room_combined = Inr (lines
     [''['',
      ''    {'',
      ''        "id": 10,'',
      ''        "name": "Alpha",'',
      ''        "students": ['',
      ''            {'',
      ''                "id": 1,'',
      ''                "name": "Ann",'',
      ''                "room_id": 10'',
      ''            }'',
      ''        ]'',
      ''    },'',
      ''    {'',
      ''        "id": 30,'',
      ''        "name": "Gamma",'',
      ''        "students": []'',
      ''    }'',
      '']''])\<close>
proof -
  have wt: "list_all well_typed_room one_room_combined"
    by (simp add: one_room_combined_def well_typed_room_def well_typed_student_def
        is_int_def is_str_def)
  have \<open>rooms_array one_room_combined = lines
     [''['',
      ''    {'',
      ''        "id": 10,'',
      ''        "name": "Alpha",'',
      ''        "students": ['',
      ''            {'',
      ''                "id": 1,'',
      ''                "name": "Ann",'',
      ''                "room_id": 10'',
      ''            }'',
      ''        ]'',
      ''    },'',
      ''    {'',
      ''        "id": 30,'',
      ''        "name": "Gamma",'',
      ''        "students": []'',
      ''    }'',
      '']'']\<close>
    by code_simp
  moreover from json_serialize_shape_and_layout [of one_room_combined] wt
  have "JsonDataSerializer_serialize one_room_combined = Inr (rooms_array one_room_combined)"
    by blast
  ultimately show ?thesis using wt by simp
qed

section \<open>Round trips and repeated serialization\<close>

subsection \<open>Decimal numerals\<close>

lemma digit_char_cases:
  assumes "(d::nat) < 10"
  obtains "d = 0" | "d = 1" | "d = 2" | "d = 3" | "d = 4" | "d = 5" | "d = 6" | "d = 7"
    | "d = 8" | "d = 9"
  using assms by atomize_elim arith

lemma digit_char_props:
  assumes "d < 10"
  shows "is_digit (digit_char d)" and "\<not> is_space (digit_char d)"
    and "digit_char d \<noteq> CHR ''_''" and "digit_char d \<noteq> CHR ''-''" and "digit_char d \<noteq> CHR ''+''"
    and "digit_value (digit_char d) = d"
  using assms
  by (cases d rule: digit_char_cases;
      simp add: digit_char_def is_digit_def is_space_def digit_value_def)+

lemma nat_digits_unfold:
  "nat_digits n = (if n < 10 then [digit_char n] else nat_digits (n div 10) @ [digit_char (n mod 10)])"
  by (rule nat_digits.simps)

declare nat_digits.simps [simp del]

lemma nat_digits_all: "list_all (\<lambda>c. is_digit c \<and> \<not> is_space c \<and> c \<noteq> CHR ''_'') (nat_digits n)"
proof (induction n rule: nat_digits.induct)
  case (1 n)
  show ?case
  proof (cases "n < 10")
    case True
    then show ?thesis by (subst nat_digits_unfold) (simp add: digit_char_props)
  next
    case False
    with 1 show ?thesis
      by (subst nat_digits_unfold) (simp add: digit_char_props)
  qed
qed

lemma nat_digits_nonempty: "nat_digits n \<noteq> []"
  by (subst nat_digits_unfold) simp

lemma nat_digits_value: "foldl (\<lambda>a c. 10 * a + digit_value c) 0 (nat_digits n) = n"
proof (induction n rule: nat_digits.induct)
  case (1 n)
  show ?case
  proof (cases "n < 10")
    case True
    then show ?thesis by (subst nat_digits_unfold) (simp add: digit_char_props)
  next
    case False
    with 1 show ?thesis
      by (subst nat_digits_unfold) (simp add: digit_char_props)
  qed
qed

lemma digits_tail_ok_digits:
  "list_all (\<lambda>c. is_digit c \<and> \<not> is_space c \<and> c \<noteq> CHR ''_'') cs \<Longrightarrow> digits_tail_ok cs"
  by (induction cs) simp_all

lemma digits_ok_nat_digits: "digits_ok (nat_digits n)"
proof -
  obtain c cs where eq: "nat_digits n = c # cs"
    using nat_digits_nonempty by (cases "nat_digits n") auto
  with nat_digits_all [of n] show ?thesis
    by (simp add: digits_tail_ok_digits)
qed

lemma digits_value_nat_digits: "digits_value (nat_digits n) = n"
proof -
  have "filter (\<lambda>c. c \<noteq> CHR ''_'') (nat_digits n) = nat_digits n"
    using nat_digits_all [of n] by (simp add: list_all_iff filter_id_conv)
  then show ?thesis by (simp add: digits_value_def nat_digits_value)
qed

lemma dropWhile_no_space: "xs \<noteq> [] \<Longrightarrow> \<not> is_space (hd xs) \<Longrightarrow> dropWhile is_space xs = xs"
  by (cases xs) simp_all

lemma strip_digits:
  assumes "\<not> is_space c" and "list_all (\<lambda>c. is_digit c \<and> \<not> is_space c \<and> c \<noteq> CHR ''_'') cs"
  shows "strip (c # cs) = c # cs"
proof -
  have "\<not> is_space (last (c # cs))"
    using assms by (cases cs rule: rev_cases) (simp_all add: list_all_iff)
  then have "\<not> is_space (hd (rev (c # cs)))"
    unfolding hd_rev .
  moreover have "rev (c # cs) \<noteq> []"
    by simp
  ultimately have "dropWhile is_space (rev (c # cs)) = rev (c # cs)"
    by (rule dropWhile_no_space [rotated])
  with assms(1) show ?thesis by (simp add: strip_def)
qed

lemma digit_count_nat_digits: "digit_count (nat_digits n) = length (nat_digits n)"
proof -
  have "filter (\<lambda>c. c \<noteq> CHR ''_'') (nat_digits n) = nat_digits n"
    using nat_digits_all [of n] by (simp add: list_all_iff filter_id_conv)
  then show ?thesis by (simp add: digit_count_def)
qed

lemma digits_result_nat_digits:
  "digits_result negative (nat_digits n) =
     (if max_str_digits < length (nat_digits n) then TooManyDigits (length (nat_digits n))
      else IntValue (if negative then - int n else int n))"
  by (simp add: digits_result_def digits_ok_nat_digits digits_value_nat_digits
      digit_count_nat_digits)

lemma int_of_string_str_int:
  "int_of_string (str_int i) =
     (if max_str_digits < length (nat_digits (nat \<bar>i\<bar>))
      then TooManyDigits (length (nat_digits (nat \<bar>i\<bar>)))
      else IntValue i)"
proof (cases "i < 0")
  case True
  then have abs: "nat \<bar>i\<bar> = nat (- i)" by simp
  have "\<not> is_space CHR ''-''" by (simp add: is_space_def)
  from strip_digits [OF this nat_digits_all] True show ?thesis
    unfolding abs by (simp add: int_of_string_def str_int_def digits_result_nat_digits)
next
  case False
  then have abs: "nat \<bar>i\<bar> = nat i" by simp
  obtain c cs where eq: "nat_digits (nat i) = c # cs"
    using nat_digits_nonempty by (cases "nat_digits (nat i)") auto
  with nat_digits_all [of "nat i"] have c: "is_digit c" "\<not> is_space c"
    and cs: "list_all (\<lambda>c. is_digit c \<and> \<not> is_space c \<and> c \<noteq> CHR ''_'') cs"
    by simp_all
  from c(1) have ne: "c \<noteq> CHR ''-''" "c \<noteq> CHR ''+''"
    by (auto simp: is_digit_def)
  have "int_of_string (str_int i) = digits_result False (nat_digits (nat i))"
    using strip_digits [OF c(2) cs] ne False eq by (simp add: int_of_string_def str_int_def)
  with False show ?thesis
    unfolding abs by (simp add: digits_result_nat_digits)
qed

subsection \<open>Loading what was serialized\<close>

lemma json_rooms_asdict: "json_rooms (map asdict_Room rooms) = Inr (map clear_students rooms)"
  by (induction rooms) (simp_all add: asdict_Room_def clear_students_def)

lemma room_of_room_element:
  assumes "is_int (r_id r)"
  shows "room_of_element (room_element r) =
     (if within_limit (r_id r) then Inr (clear_students r)
      else Inl (exceeds_limit (length (nat_digits (nat \<bar>case r_id r of PInt i \<Rightarrow> i | _ \<Rightarrow> 0\<bar>)))))"
proof -
  from assms obtain i where i: "r_id r = PInt i"
    by (cases "r_id r") (simp_all add: is_int_def)
  then have "py_str (r_id r) = str_int i"
    by (simp add: py_str_def)
  with i show ?thesis
    by (cases r)
       (simp add: room_of_element_def room_element_def find_text_def int_of_string_str_int
          clear_students_def within_limit_def)
qed

lemma rooms_of_room_elements:
  "list_all (\<lambda>r. is_int (r_id r)) rooms \<Longrightarrow> list_all (\<lambda>r. within_limit (r_id r)) rooms \<Longrightarrow>
   rooms_of_elements (map room_element rooms) = Inr (map clear_students rooms)"
  by (induction rooms) (simp_all add: room_of_room_element)

lemma rooms_of_room_elements_beyond:
  "list_all (\<lambda>r. is_int (r_id r)) rooms \<Longrightarrow> \<not> list_all (\<lambda>r. within_limit (r_id r)) rooms \<Longrightarrow>
   \<exists>msg. rooms_of_elements (map room_element rooms) = Inl (ValueError msg)"
proof (induction rooms)
  case Nil
  then show ?case by simp
next
  case (Cons r rooms)
  show ?case
  proof (cases "within_limit (r_id r)")
    case True
    with Cons obtain msg where "rooms_of_elements (map room_element rooms) = Inl (ValueError msg)"
      by auto
    with True Cons.prems(1) show ?thesis
      by (simp add: room_of_room_element)
  next
    case False
    with Cons.prems(1) show ?thesis
      by (simp add: room_of_room_element exceeds_limit_def)
  qed
qed

text \<open>
  C5 (as amended): when the parser gives back the document that the serializer of the
  same format wrote, loading it as the rooms source gives the rooms in their order with
  their identifiers and names and with no students at all: every loaded room has the
  empty student list. For XML this is so for integer identifiers that \<open>int\<close> reads
  back, of no more digits than the interpreter's limit; with an identifier beyond it the
  load fails with a \<open>ValueError\<close>.
\<close>

theorem reload_recovers_rooms_without_students:
  "(load_json rooms_path = Inr (rooms_as_dictionary rooms) \<and>
    load_json students_path = Inr students_json \<and>
    py_iter students_json = Inr records \<and> json_students records = Inr students \<longrightarrow>
      JsonDataLoader_load load_json students_path rooms_path =
        Inr (students, map clear_students rooms)) \<and>
   (et_parse rooms_path = Parsed (rooms_element rooms) \<and>
    parse_students et_parse students_path = Inr students \<and>
    list_all (\<lambda>r. is_int (r_id r)) rooms \<longrightarrow>
      (if list_all (\<lambda>r. within_limit (r_id r)) rooms
       then XmlDataLoader_load et_parse students_path rooms_path =
              Inr (students, map clear_students rooms)
       else \<exists>msg. XmlDataLoader_load et_parse students_path rooms_path =
              Inl (ValueError msg)))"
proof (intro conjI impI)
  assume "load_json rooms_path = Inr (rooms_as_dictionary rooms) \<and>
    load_json students_path = Inr students_json \<and>
    py_iter students_json = Inr records \<and> json_students records = Inr students"
  then show "JsonDataLoader_load load_json students_path rooms_path =
        Inr (students, map clear_students rooms)"
    by (simp add: JsonDataLoader_load_def rooms_as_dictionary_def json_rooms_asdict)
next
  assume a: "et_parse rooms_path = Parsed (rooms_element rooms) \<and>
    parse_students et_parse students_path = Inr students \<and>
    list_all (\<lambda>r. is_int (r_id r)) rooms"
  then have ints: "list_all (\<lambda>r. is_int (r_id r)) rooms" by simp
  show "if list_all (\<lambda>r. within_limit (r_id r)) rooms
       then XmlDataLoader_load et_parse students_path rooms_path =
              Inr (students, map clear_students rooms)
       else \<exists>msg. XmlDataLoader_load et_parse students_path rooms_path =
              Inl (ValueError msg)"
  proof (cases "list_all (\<lambda>r. within_limit (r_id r)) rooms")
    case True
    with a rooms_of_room_elements [OF ints True] show ?thesis
      by (simp add: XmlDataLoader_load_def parse_rooms_def rooms_element_def)
  next
    case False
    with a rooms_of_room_elements_beyond [OF ints False] show ?thesis
      by (auto simp: XmlDataLoader_load_def parse_rooms_def rooms_element_def)
  qed
qed

theorem reload_recovers_rooms_without_students_witness:
  "reload_json one_room_combined ''rooms.json'' = Inr (rooms_as_dictionary one_room_combined) \<and>
   reload_json one_room_combined ''students.json'' = Inr (PList []) \<and>
   JsonDataLoader_load (reload_json one_room_combined) ''students.json'' ''rooms.json'' =
     Inr ([], [\<lparr>r_id = PInt 10, r_name = PStr ''Alpha'', r_students = []\<rparr>,
               \<lparr>r_id = PInt 30, r_name = PStr ''Gamma'', r_students = []\<rparr>]) \<and>
   reload_xml one_room_combined ''rooms.xml'' = Parsed (rooms_element one_room_combined) \<and>
   list_all (\<lambda>r. is_int (r_id r)) one_room_combined \<and>
   list_all (\<lambda>r. within_limit (r_id r)) one_room_combined \<and>
   XmlDataLoader_load (reload_xml one_room_combined) ''students.xml'' ''rooms.xml'' =
     Inr ([], [\<lparr>r_id = PInt 10, r_name = PStr ''Alpha'', r_students = []\<rparr>,
               \<lparr>r_id = PInt 30, r_name = PStr ''Gamma'', r_students = []\<rparr>])"
proof -
  have jr: "reload_json one_room_combined ''rooms.json'' = Inr (rooms_as_dictionary one_room_combined)"
    and js: "reload_json one_room_combined ''students.json'' = Inr (PList [])"
    by (simp_all add: reload_json_def)
  have it: "py_iter (PList []) = Inr []" and st: "json_students [] = Inr []"
    by simp_all
  have xr: "reload_xml one_room_combined ''rooms.xml'' = Parsed (rooms_element one_room_combined)"
    by (simp add: reload_xml_def)
  have xs: "parse_students (reload_xml one_room_combined) ''students.xml'' = Inr []"
    by (simp add: parse_students_def reload_xml_def)
  have ints: "list_all (\<lambda>r. is_int (r_id r)) one_room_combined"
    by (simp add: one_room_combined_def is_int_def)
  have lim: "list_all (\<lambda>r. within_limit (r_id r)) one_room_combined"
    by code_simp
  have cl: "map clear_students one_room_combined =
      [\<lparr>r_id = PInt 10, r_name = PStr ''Alpha'', r_students = []\<rparr>,
       \<lparr>r_id = PInt 30, r_name = PStr ''Gamma'', r_students = []\<rparr>]"
    by (simp add: one_room_combined_def clear_students_def)
  from reload_recovers_rooms_without_students
    [where load_json = "reload_json one_room_combined" and rooms_path = "''rooms.json''"
       and students_path = "''students.json''" and rooms = one_room_combined
       and students_json = "PList []" and records = "[]" and students = "[]"]
    jr js it st
  have j: "JsonDataLoader_load (reload_json one_room_combined) ''students.json'' ''rooms.json'' =
          Inr ([], map clear_students one_room_combined)"
    by simp
  from reload_recovers_rooms_without_students
    [where et_parse = "reload_xml one_room_combined" and rooms_path = "''rooms.xml''"
       and students_path = "''students.xml''" and rooms = one_room_combined
       and students = "[]"]
    xr xs ints lim
  have x: "XmlDataLoader_load (reload_xml one_room_combined) ''students.xml'' ''rooms.xml'' =
          Inr ([], map clear_students one_room_combined)"
    by simp
  from j x jr js xr ints lim cl show ?thesis by simp
qed

lemma reload_json_example:
  "JsonDataLoader_load (reload_json one_room_combined) ''students.json'' ''rooms.json'' =
     Inr ([], [\<lparr>r_id = PInt 10, r_name = PStr ''Alpha'', r_students = []\<rparr>,
               \<lparr>r_id = PInt 30, r_name = PStr ''Gamma'', r_students = []\<rparr>])"
  by (simp add: JsonDataLoader_load_def reload_json_def rooms_as_dictionary_def
      one_room_combined_def asdict_Room_def)

lemma reload_same_json_example:
  "JsonDataLoader_load (same_json one_room_combined) ''out.json'' ''out.json'' =
     Inl (KeyError ''room'')"
  by (simp add: JsonDataLoader_load_def same_json_def rooms_as_dictionary_def
      one_room_combined_def asdict_Room_def)

lemma reload_xml_example:
  "XmlDataLoader_load (reload_xml one_room_combined) ''students.xml'' ''rooms.xml'' =
     Inr ([], [\<lparr>r_id = PInt 10, r_name = PStr ''Alpha'', r_students = []\<rparr>,
               \<lparr>r_id = PInt 30, r_name = PStr ''Gamma'', r_students = []\<rparr>])"
  by code_simp

text \<open>
  The claim as first stated fails: the first room has the student Ann, and loading what
  either serializer wrote gives that room with no student; the JSON output given as the
  students file as well ends with a \<open>KeyError\<close>, since an object of the output has no
  key \<open>room\<close>.
\<close>

theorem reload_loses_students:
  "r_students (hd one_room_combined) =
     [\<lparr>s_id = PInt 1, s_name = PStr ''Ann'', s_room_id = PInt 10\<rparr>] \<and>
   JsonDataLoader_load (reload_json one_room_combined) ''students.json'' ''rooms.json'' =
     Inr ([], [\<lparr>r_id = PInt 10, r_name = PStr ''Alpha'', r_students = []\<rparr>,
               \<lparr>r_id = PInt 30, r_name = PStr ''Gamma'', r_students = []\<rparr>]) \<and>
   JsonDataLoader_load (same_json one_room_combined) ''out.json'' ''out.json'' =
     Inl (KeyError ''room'') \<and>
   XmlDataLoader_load (reload_xml one_room_combined) ''students.xml'' ''rooms.xml'' =
     Inr ([], [\<lparr>r_id = PInt 10, r_name = PStr ''Alpha'', r_students = []\<rparr>,
               \<lparr>r_id = PInt 30, r_name = PStr ''Gamma'', r_students = []\<rparr>])"
  using reload_json_example reload_same_json_example reload_xml_example
  by (simp add: one_room_combined_def)

subsection \<open>The serializers return, and return the same text again\<close>

lemma concat_results_ok:
  "list_all (\<lambda>r. \<exists>t. r = Inr t) rs \<Longrightarrow> \<exists>t. concat_results rs = Inr t"
  by (induction rs) auto

lemma serialize_leaf:
  "text_or_none v \<Longrightarrow> \<exists>t. serialize_xml (Element tg v []) = Inr t"
  by (cases v) (simp_all add: text_or_none_def escape_cdata_def)

lemma serialize_student_element:
  assumes "text_or_none (s_name s)"
  shows "\<exists>t. serialize_xml (student_element s) = Inr t"
proof -
  obtain a where a: "serialize_xml (Element ''id'' (PStr (py_str (s_id s))) []) = Inr a"
    using serialize_leaf [of "PStr (py_str (s_id s))"] by (auto simp: text_or_none_def)
  obtain b where b: "serialize_xml (Element ''name'' (s_name s) []) = Inr b"
    using serialize_leaf [OF assms] by blast
  obtain c where c: "serialize_xml (Element ''room'' (PStr (py_str (s_room_id s))) []) = Inr c"
    using serialize_leaf [of "PStr (py_str (s_room_id s))"] by (auto simp: text_or_none_def)
  from a b c show ?thesis
    by (simp add: student_element_def)
qed

lemma serialize_parent:
  assumes "list_all (\<lambda>el. \<exists>t. serialize_xml el = Inr t) els"
  shows "\<exists>t. serialize_xml (Element tg PNone els) = Inr t"
proof -
  from assms have "list_all (\<lambda>r. \<exists>t. r = Inr t) (map serialize_xml els)"
    by (simp add: list_all_iff)
  from concat_results_ok [OF this] show ?thesis
    by (auto simp del: serialize_xml.simps simp add: serialize_xml.simps [of tg PNone els])
qed

lemma serialize_room_element:
  assumes "names_are_text r"
  shows "\<exists>t. serialize_xml (room_element r) = Inr t"
proof -
  have id_ok: "\<exists>t. serialize_xml (Element ''id'' (PStr (py_str (r_id r))) []) = Inr t"
    using serialize_leaf [of "PStr (py_str (r_id r))"] by (auto simp: text_or_none_def)
  have name_ok: "\<exists>t. serialize_xml (Element ''name'' (r_name r) []) = Inr t"
    using assms serialize_leaf by (simp add: names_are_text_def)
  have "list_all (\<lambda>el. \<exists>t. serialize_xml el = Inr t) (map student_element (r_students r))"
    using assms serialize_student_element by (simp add: names_are_text_def list_all_iff)
  then have students_ok:
    "\<exists>t. serialize_xml (Element ''Students'' PNone (map student_element (r_students r))) = Inr t"
    by (rule serialize_parent)
  have "list_all (\<lambda>el. \<exists>t. serialize_xml el = Inr t)
      [Element ''id'' (PStr (py_str (r_id r))) [], Element ''name'' (r_name r) [],
       Element ''Students'' PNone (map student_element (r_students r))]"
    using id_ok name_ok students_ok by simp
  then show ?thesis
    unfolding room_element_def by (rule serialize_parent)
qed

lemma xml_serialize_ok:
  assumes "list_all names_are_text rooms"
  shows "\<exists>t. XmlDataSerializer_serialize rooms = Inr t"
proof -
  have "list_all (\<lambda>el. \<exists>t. serialize_xml el = Inr t) (map room_element rooms)"
    using assms serialize_room_element by (simp add: list_all_iff)
  then show ?thesis
    unfolding XmlDataSerializer_serialize_def rooms_element_def by (rule serialize_parent)
qed

subsection \<open>The serializers on the heap\<close>

text \<open>An element tree on the heap is written as the tree it stores.\<close>

lemma stored_in_frame:
  "stored_in lo hi h a t \<Longrightarrow> (\<And>b. lo \<le> b \<Longrightarrow> b < hi \<Longrightarrow> objs h' b = objs h b) \<Longrightarrow>
   stored_in lo hi h' a t"
proof (induction t arbitrary: a)
  case (Element tg tx ts)
  from Element.prems(1) obtain elems where
    a: "lo \<le> a" "a < hi" and o: "objs h a = Some (ElementObj tg tx elems)"
    and kids: "list_all2 (\<lambda>c t. stored_in lo hi h c t) elems ts"
    by (auto split: option.splits obj.splits)
  from kids have "list_all2 (\<lambda>c t. stored_in lo hi h' c t) elems ts"
  proof (rule list.rel_mono_strong)
    fix c t assume "t \<in> set ts" "stored_in lo hi h c t"
    then show "stored_in lo hi h' c t"
      using Element.IH Element.prems(2) by blast
  qed
  with a o Element.prems(2) [OF a] show ?case by simp
qed

lemma stored_in_widen:
  "stored_in lo hi h a t \<Longrightarrow> lo' \<le> lo \<Longrightarrow> hi \<le> hi' \<Longrightarrow> stored_in lo' hi' h a t"
proof (induction t arbitrary: a)
  case (Element tg tx ts)
  from Element.prems(1) obtain elems where
    a: "lo \<le> a" "a < hi" and o: "objs h a = Some (ElementObj tg tx elems)"
    and kids: "list_all2 (\<lambda>c t. stored_in lo hi h c t) elems ts"
    by (auto split: option.splits obj.splits)
  from kids have "list_all2 (\<lambda>c t. stored_in lo' hi' h c t) elems ts"
  proof (rule list.rel_mono_strong)
    fix c t assume "t \<in> set ts" "stored_in lo hi h c t"
    then show "stored_in lo' hi' h c t"
      using Element.IH Element.prems(2,3) by blast
  qed
  with a o Element.prems(2,3) show ?case by simp
qed

lemma fits_mono: "fits n t \<Longrightarrow> n \<le> m \<Longrightarrow> fits m t"
proof (induction n arbitrary: m t)
  case 0
  then show ?case by simp
next
  case (Suc n)
  obtain tg tx ts where t: "t = Element tg tx ts" by (cases t)
  from Suc.prems(2) obtain m' where m: "m = Suc m'" "n \<le> m'" by (cases m) auto
  from Suc.prems(1) t have "list_all (fits n) ts" by simp
  then have "list_all (fits m') ts"
    using Suc.IH m(2) by (auto simp: list_all_iff)
  with t m show ?case by simp
qed

lemma tostring_stored:
  "fits n t \<Longrightarrow> stored_in lo hi h a t \<Longrightarrow> tostring n h a = serialize_xml t"
proof (induction n arbitrary: a t)
  case 0
  then show ?case by simp
next
  case (Suc n)
  obtain tg tx ts where t: "t = Element tg tx ts" by (cases t)
  from Suc.prems(2) t obtain elems where
    o: "objs h a = Some (ElementObj tg tx elems)"
    and kids: "list_all2 (\<lambda>c t. stored_in lo hi h c t) elems ts"
    by (auto split: option.splits obj.splits)
  from Suc.prems(1) t have f: "list_all (fits n) ts" by simp
  have "list_all2 (\<lambda>c t. tostring n h c = serialize_xml t) elems ts"
    using kids
  proof (rule list.rel_mono_strong)
    fix c t' assume "t' \<in> set ts" "stored_in lo hi h c t'"
    with f show "tostring n h c = serialize_xml t'"
      using Suc.IH by (auto simp: list_all_iff)
  qed
  then have m: "map (tostring n h) elems = map serialize_xml ts"
    by (induction rule: list_all2_induct) simp_all
  from kids have "elems = [] \<longleftrightarrow> ts = []"
    by (auto dest: list_all2_lengthD)
  with o m t show ?case by (simp cong: sum.case_cong if_cong)
qed

text \<open>The loop bodies append one subtree each, and change nothing else.\<close>

lemmas heap_ops =
  bind_h_def read_h_def write_h_def new_object_def append_child_def SubElement_def
  set_text_def SubElement_text_def str_of_def

lemma student_body_effect:
  assumes p: "objs h p = Some (ElementObj pt px pcs)" and pl: "p < free_addr h"
    and s: "objs h s = Some (StudentObj i n r)" and sl: "s < free_addr h"
  shows "\<exists>h'. student_body p s h = (Inr (), h') \<and>
           free_addr h' = free_addr h + 4 \<and>
           objs h' = (objs h)
             (p \<mapsto> ElementObj pt px (pcs @ [free_addr h]),
              free_addr h \<mapsto> ElementObj ''Student'' PNone
                [free_addr h + 1, free_addr h + 2, free_addr h + 3],
              free_addr h + 1 \<mapsto> ElementObj ''id'' (PStr (py_str i)) [],
              free_addr h + 2 \<mapsto> ElementObj ''name'' n [],
              free_addr h + 3 \<mapsto> ElementObj ''room'' (PStr (py_str r)) [])"
proof -
  from p s have ne: "s \<noteq> p" by auto
  show ?thesis
    using p pl s sl ne
    by (auto simp: student_body_def heap_ops attr_id_def attr_name_def attr_room_id_def
        Let_def fun_eq_iff)
qed

lemma student_body_appends:
  assumes p: "objs h p = Some (ElementObj pt px pcs)" and pl: "p < free_addr h"
    and s: "objs h s = Some (StudentObj i n r)" and sl: "s < free_addr h"
  shows "\<exists>h'. student_body p s h = (Inr (), h') \<and>
           appends h p (student_element \<lparr>s_id = i, s_name = n, s_room_id = r\<rparr>) h'"
proof -
  from student_body_effect [OF assms] obtain h' where
    run: "student_body p s h = (Inr (), h')" and f: "free_addr h' = free_addr h + 4"
    and o: "objs h' = (objs h)
             (p \<mapsto> ElementObj pt px (pcs @ [free_addr h]),
              free_addr h \<mapsto> ElementObj ''Student'' PNone
                [free_addr h + 1, free_addr h + 2, free_addr h + 3],
              free_addr h + 1 \<mapsto> ElementObj ''id'' (PStr (py_str i)) [],
              free_addr h + 2 \<mapsto> ElementObj ''name'' n [],
              free_addr h + 3 \<mapsto> ElementObj ''room'' (PStr (py_str r)) [])"
    by blast
  have "appends h p (student_element \<lparr>s_id = i, s_name = n, s_room_id = r\<rparr>) h'"
    using p pl by (simp add: appends_def f o student_element_def)
  with run show ?thesis by blast
qed

lemma for_each_appends:
  assumes body: "\<And>x h. x \<in> set xs \<Longrightarrow> old_kept h0 h \<Longrightarrow> p < free_addr h \<Longrightarrow>
      (\<exists>pt px pcs. objs h p = Some (ElementObj pt px pcs)) \<Longrightarrow>
      \<exists>h'. body x h = (Inr (), h') \<and> appends h p (T x) h'"
    and "old_kept h0 h" and "free_addr h0 \<le> p" and "p < free_addr h"
    and "objs h p = Some (ElementObj pt px pcs)"
  shows "\<exists>h'. for_each body xs h = (Inr (), h') \<and> appends_all h p (map T xs) h'"
  using assms
proof (induction xs arbitrary: h pcs)
  case Nil
  then show ?case by (simp add: appends_all_def)
next
  case (Cons x xs)
  from Cons.prems(1) [of x h] Cons.prems(2,4,5) obtain h1 where
    run1: "body x h = (Inr (), h1)" and ap: "appends h p (T x) h1"
    by auto
  from ap Cons.prems(5) have
    f1: "free_addr h \<le> free_addr h1"
    and fr1: "\<And>b. b < free_addr h \<Longrightarrow> b \<noteq> p \<Longrightarrow> objs h1 b = objs h b"
    and p1: "objs h1 p = Some (ElementObj pt px (pcs @ [free_addr h]))"
    and st1: "stored_in (free_addr h) (free_addr h1) h1 (free_addr h) (T x)"
    by (simp_all add: appends_def)
  have k1: "old_kept h0 h1"
    using Cons.prems(2,3) f1 fr1 by (auto simp: old_kept_def)
  have pl1: "p < free_addr h1" using Cons.prems(4) f1 by simp
  have "\<exists>h'. for_each body xs h1 = (Inr (), h') \<and> appends_all h1 p (map T xs) h'"
  proof (rule Cons.IH [OF _ k1 Cons.prems(3) pl1 p1])
    fix y h assume "y \<in> set xs" "old_kept h0 h" "p < free_addr h"
      "\<exists>pt px pcs. objs h p = Some (ElementObj pt px pcs)"
    then show "\<exists>h'. body y h = (Inr (), h') \<and> appends h p (T y) h'"
      using Cons.prems(1) [of y h] by simp
  qed
  then obtain h' as where
    run: "for_each body xs h1 = (Inr (), h')"
    and f': "free_addr h1 \<le> free_addr h'"
    and fr': "\<And>b. b < free_addr h1 \<Longrightarrow> b \<noteq> p \<Longrightarrow> objs h' b = objs h1 b"
    and p': "objs h' p = Some (ElementObj pt px ((pcs @ [free_addr h]) @ as))"
    and st': "list_all2 (stored_in (free_addr h1) (free_addr h') h') as (map T xs)"
    using p1 by (auto simp: appends_all_def)
  have first: "stored_in (free_addr h) (free_addr h') h' (free_addr h) (T x)"
  proof (rule stored_in_widen)
    show "stored_in (free_addr h) (free_addr h1) h' (free_addr h) (T x)"
    proof (rule stored_in_frame [OF st1])
      fix b assume "free_addr h \<le> b" "b < free_addr h1"
      with Cons.prems(4) show "objs h' b = objs h1 b"
        by (intro fr') simp_all
    qed
  qed (use f' in simp_all)
  have rest: "list_all2 (stored_in (free_addr h) (free_addr h') h') as (map T xs)"
    using st'
  proof (rule list.rel_mono_strong)
    fix c t assume "stored_in (free_addr h1) (free_addr h') h' c t"
    then show "stored_in (free_addr h) (free_addr h') h' c t"
      by (rule stored_in_widen) (use f1 in simp_all)
  qed
  have "appends_all h p (map T (x # xs)) h'"
    unfolding appends_all_def
  proof (intro conjI allI impI)
    show "free_addr h \<le> free_addr h'" using f1 f' by simp
    show "objs h' b = objs h b" if "b < free_addr h" "b \<noteq> p" for b
      using that fr' [of b] fr1 [of b] f1 by simp
    show "case objs h p of
        Some (ElementObj pt px pcs) \<Rightarrow>
          \<exists>as. objs h' p = Some (ElementObj pt px (pcs @ as)) \<and>
               list_all2 (stored_in (free_addr h) (free_addr h') h') as (map T (x # xs))
      | _ \<Rightarrow> False"
      using Cons.prems(5) p' first rest
      by (auto intro!: exI [of _ "free_addr h # as"])
  qed
  with run1 run show ?case by simp
qed

lemma room_head_effect:
  assumes p: "objs h p = Some (ElementObj pt px pcs)" and pl: "p < free_addr h"
    and r: "objs h room = Some (RoomObj i n l)" and rl: "room < free_addr h"
  shows "\<exists>h'. room_head p room h = (Inr (free_addr h + 3), h') \<and>
           free_addr h' = free_addr h + 4 \<and>
           objs h' = (objs h)
             (p \<mapsto> ElementObj pt px (pcs @ [free_addr h]),
              free_addr h \<mapsto> ElementObj ''Room'' PNone
                [free_addr h + 1, free_addr h + 2, free_addr h + 3],
              free_addr h + 1 \<mapsto> ElementObj ''id'' (PStr (py_str i)) [],
              free_addr h + 2 \<mapsto> ElementObj ''name'' n [],
              free_addr h + 3 \<mapsto> ElementObj ''Students'' PNone [])"
proof -
  from p r have ne: "room \<noteq> p" by auto
  show ?thesis
    using p pl r rl ne
    by (auto simp: room_head_def heap_ops attr_id_def attr_name_def Let_def fun_eq_iff)
qed

lemma is_Student_kept:
  assumes "old_kept h0 h" and "is_Student h0 s"
  shows "s < free_addr h0" and "objs h s = objs h0 s"
    and "\<exists>i n r. objs h0 s = Some (StudentObj i n r) \<and>
           student_of_heap h0 s = \<lparr>s_id = i, s_name = n, s_room_id = r\<rparr>"
  using assms
  by (auto simp: old_kept_def is_Student_def student_of_heap_def split: option.splits obj.splits)

lemma student_body_kept:
  assumes k: "old_kept h0 h" and s: "is_Student h0 s" and pl: "p < free_addr h"
    and p: "\<exists>pt px pcs. objs h p = Some (ElementObj pt px pcs)"
  shows "\<exists>h'. student_body p s h = (Inr (), h') \<and>
           appends h p (student_element (student_of_heap h0 s)) h'"
proof -
  from is_Student_kept [OF k s] obtain i n r where
    sl: "s < free_addr h0" and eq: "objs h s = objs h0 s"
    and o: "objs h0 s = Some (StudentObj i n r)"
    and v: "student_of_heap h0 s = \<lparr>s_id = i, s_name = n, s_room_id = r\<rparr>"
    by blast
  from p obtain pt px pcs where p': "objs h p = Some (ElementObj pt px pcs)" by blast
  from k sl have "s < free_addr h" by (simp add: old_kept_def)
  from student_body_appends [OF p' pl _ this, of i n r] eq o v show ?thesis by simp
qed

lemma room_body_kept:
  assumes k: "old_kept h0 h" and r: "is_Room h0 room"
    and p0: "free_addr h0 \<le> p" and pl: "p < free_addr h"
    and p: "\<exists>pt px pcs. objs h p = Some (ElementObj pt px pcs)"
  shows "\<exists>h'. room_body p room h = (Inr (), h') \<and>
           appends h p (room_element (room_of_heap h0 room)) h'"
proof -
  from p obtain pt px pcs where p': "objs h p = Some (ElementObj pt px pcs)" by blast
  from r obtain i n l items where
    rl0: "room < free_addr h0" and ro0: "objs h0 room = Some (RoomObj i n l)"
    and ll0: "l < free_addr h0" and lo0: "objs h0 l = Some (ListObj items)"
    and st0: "list_all (is_Student h0) items"
    by (auto simp: is_Room_def is_Student_list_def split: option.splits obj.splits)
  have val: "room_of_heap h0 room =
      \<lparr>r_id = i, r_name = n, r_students = map (student_of_heap h0) items\<rparr>"
    using ro0 lo0 by (simp add: room_of_heap_def items_of_heap_def)
  from k have f0: "free_addr h0 \<le> free_addr h"
    and keep: "\<And>b. b < free_addr h0 \<Longrightarrow> objs h b = objs h0 b"
    by (simp_all add: old_kept_def)
  let ?n = "free_addr h"
  have ro: "objs h room = Some (RoomObj i n l)" and rl: "room < ?n"
    using keep [OF rl0] ro0 rl0 f0 by simp_all
  from room_head_effect [OF p' pl ro rl] obtain h4 where
    head: "room_head p room h = (Inr (?n + 3), h4)" and f4: "free_addr h4 = ?n + 4"
    and o4: "objs h4 = (objs h)
             (p \<mapsto> ElementObj pt px (pcs @ [?n]),
              ?n \<mapsto> ElementObj ''Room'' PNone [?n + 1, ?n + 2, ?n + 3],
              ?n + 1 \<mapsto> ElementObj ''id'' (PStr (py_str i)) [],
              ?n + 2 \<mapsto> ElementObj ''name'' n [],
              ?n + 3 \<mapsto> ElementObj ''Students'' PNone [])"
    by blast
  have keep4: "\<And>b. b < free_addr h0 \<Longrightarrow> objs h4 b = objs h0 b"
    using keep p0 f0 by (simp add: o4)
  have k4: "old_kept h0 h4"
    using keep4 f0 f4 by (simp add: old_kept_def)
  have reads: "attr_students h4 room = Inr l" "iterate h4 l = Inr items"
    using keep4 [OF rl0] keep4 [OF ll0] ro0 lo0
    by (simp_all add: attr_students_def iterate_def)
  have "\<exists>h'. for_each (student_body (?n + 3)) items h4 = (Inr (), h') \<and>
          appends_all h4 (?n + 3) (map (\<lambda>s. student_element (student_of_heap h0 s)) items) h'"
  proof (rule for_each_appends [OF _ k4])
    fix x h assume "x \<in> set items" "old_kept h0 h" "?n + 3 < free_addr h"
      "\<exists>pt px pcs. objs h (?n + 3) = Some (ElementObj pt px pcs)"
    with st0 show "\<exists>h'. student_body (?n + 3) x h = (Inr (), h') \<and>
        appends h (?n + 3) (student_element (student_of_heap h0 x)) h'"
      by (intro student_body_kept) (auto simp: list_all_iff)
  next
    show "free_addr h0 \<le> ?n + 3" using f0 by simp
    show "?n + 3 < free_addr h4" using f4 by simp
    show "objs h4 (?n + 3) = Some (ElementObj ''Students'' PNone [])" by (simp add: o4)
  qed
  then obtain h' as where
    loop: "for_each (student_body (?n + 3)) items h4 = (Inr (), h')"
    and f': "free_addr h4 \<le> free_addr h'"
    and fr': "\<And>b. b < free_addr h4 \<Longrightarrow> b \<noteq> ?n + 3 \<Longrightarrow> objs h' b = objs h4 b"
    and s': "objs h' (?n + 3) = Some (ElementObj ''Students'' PNone as)"
    and st': "list_all2 (stored_in (free_addr h4) (free_addr h') h') as
                (map (\<lambda>s. student_element (student_of_heap h0 s)) items)"
    by (auto simp: appends_all_def o4)
  have run: "room_body p room h = (Inr (), h')"
    using head reads loop by (simp add: room_body_def bind_h_def read_h_def)
  have wide: "list_all2 (stored_in ?n (free_addr h') h') as
                (map (\<lambda>s. student_element (student_of_heap h0 s)) items)"
    using st'
  proof (rule list.rel_mono_strong)
    fix c t assume "stored_in (free_addr h4) (free_addr h') h' c t"
    then show "stored_in ?n (free_addr h') h' c t"
      by (rule stored_in_widen) (use f4 in simp_all)
  qed
  have o': "objs h' p = Some (ElementObj pt px (pcs @ [?n]))"
    "objs h' ?n = Some (ElementObj ''Room'' PNone [?n + 1, ?n + 2, ?n + 3])"
    "objs h' (?n + 1) = Some (ElementObj ''id'' (PStr (py_str i)) [])"
    "objs h' (?n + 2) = Some (ElementObj ''name'' n [])"
    using pl f4 by (simp_all add: fr' o4)
  have old: "objs h' b = objs h b" if "b < ?n" "b \<noteq> p" for b
    using that f4 by (simp add: fr' o4)
  have "appends h p (room_element (room_of_heap h0 room)) h'"
    unfolding appends_def
  proof (intro conjI allI impI)
    show "?n \<le> free_addr h'" using f4 f' by simp
    show "objs h' b = objs h b" if "b < ?n" "b \<noteq> p" for b
      using that by (rule old)
    show "case objs h p of
        Some (ElementObj pt px pcs) \<Rightarrow> objs h' p = Some (ElementObj pt px (pcs @ [?n]))
      | _ \<Rightarrow> False"
      using p' o'(1) by simp
    show "stored_in ?n (free_addr h') h' ?n (room_element (room_of_heap h0 room))"
      using o' s' wide f4 f'
      by (simp add: val room_element_def comp_def)
  qed
  with run show ?thesis by blast
qed

text \<open>
  Each serializer on the heap returns what the serializer on values returns for the rooms
  of the heap, and keeps the objects; kept objects stand for the same rooms.
\<close>

lemma fits_rooms_element: "fits (Suc (Suc (Suc (Suc (Suc n))))) (rooms_element rooms)"
  by (simp add: rooms_element_def room_element_def student_element_def list_all_iff)

lemma is_Room_list_items:
  assumes "is_Room_list h ref"
  shows "ref < free_addr h" and "objs h ref = Some (ListObj (items_of_heap h ref))"
    and "list_all (is_Room h) (items_of_heap h ref)"
  using assms
  by (auto simp: is_Room_list_def items_of_heap_def split: option.splits obj.splits)

lemma xml_heap_refines:
  assumes wf: "is_Room_list h ref" and d: "5 \<le> depth_limit"
  shows "\<exists>h'. XmlDataSerializer_serialize_heap depth_limit ref h =
                 (XmlDataSerializer_serialize (rooms_of_heap h ref), h') \<and> old_kept h h'"
proof -
  let ?n = "free_addr h"
  let ?rooms = "items_of_heap h ref"
  let ?h1 = "h\<lparr>objs := (objs h)(?n \<mapsto> ElementObj ''Rooms'' PNone []), free_addr := Suc ?n\<rparr>"
  note it = is_Room_list_items [OF wf]
  have k1: "old_kept h ?h1" by (simp add: old_kept_def)
  have rd: "iterate ?h1 ref = Inr ?rooms"
    using it(1,2) by (simp add: iterate_def)
  have "\<exists>h'. for_each (room_body ?n) ?rooms ?h1 = (Inr (), h') \<and>
          appends_all ?h1 ?n (map (\<lambda>r. room_element (room_of_heap h r)) ?rooms) h'"
  proof (rule for_each_appends [OF _ k1])
    fix x h2 assume "x \<in> set ?rooms" "old_kept h h2" "?n < free_addr h2"
      "\<exists>pt px pcs. objs h2 ?n = Some (ElementObj pt px pcs)"
    with it(3) show "\<exists>h'. room_body ?n x h2 = (Inr (), h') \<and>
        appends h2 ?n (room_element (room_of_heap h x)) h'"
      by (intro room_body_kept) (auto simp: list_all_iff)
  next
    show "free_addr h \<le> ?n" by simp
    show "?n < free_addr ?h1" by simp
    show "objs ?h1 ?n = Some (ElementObj ''Rooms'' PNone [])" by simp
  qed
  then obtain h' as where
    loop: "for_each (room_body ?n) ?rooms ?h1 = (Inr (), h')"
    and f': "Suc ?n \<le> free_addr h'"
    and fr': "\<And>b. b < Suc ?n \<Longrightarrow> b \<noteq> ?n \<Longrightarrow> objs h' b = objs ?h1 b"
    and o': "objs h' ?n = Some (ElementObj ''Rooms'' PNone as)"
    and st': "list_all2 (stored_in (Suc ?n) (free_addr h') h') as
                (map (\<lambda>r. room_element (room_of_heap h r)) ?rooms)"
    by (auto simp: appends_all_def)
  have kept: "old_kept h h'"
    using f' fr' by (simp add: old_kept_def)
  have wide: "list_all2 (stored_in ?n (free_addr h') h') as
                (map (\<lambda>r. room_element (room_of_heap h r)) ?rooms)"
    using st'
  proof (rule list.rel_mono_strong)
    fix c t assume "stored_in (Suc ?n) (free_addr h') h' c t"
    then show "stored_in ?n (free_addr h') h' c t"
      by (rule stored_in_widen) simp_all
  qed
  have st: "stored_in ?n (free_addr h') h' ?n (rooms_element (rooms_of_heap h ref))"
    using o' wide f' by (simp add: rooms_element_def rooms_of_heap_def comp_def)
  define m where "m = depth_limit - 5"
  have m: "depth_limit = Suc (Suc (Suc (Suc (Suc m))))"
    using d by (simp add: m_def)
  have "tostring depth_limit h' ?n = serialize_xml (rooms_element (rooms_of_heap h ref))"
    unfolding m by (rule tostring_stored [OF fits_rooms_element st])
  then have "XmlDataSerializer_serialize_heap depth_limit ref h =
      (XmlDataSerializer_serialize (rooms_of_heap h ref), h')"
    using rd loop
    by (simp add: XmlDataSerializer_serialize_heap_def XmlDataSerializer_serialize_def
        new_object_def bind_h_def read_h_def)
  with kept show ?thesis by blast
qed

lemma old_kept_Student:
  assumes "old_kept h h'" and "is_Student h a"
  shows "is_Student h' a" and "student_of_heap h' a = student_of_heap h a"
  using assms by (auto simp: old_kept_def is_Student_def student_of_heap_def)

lemma old_kept_Student_list:
  assumes k: "old_kept h h'" and l: "is_Student_list h a"
  shows "is_Student_list h' a" and "items_of_heap h' a = items_of_heap h a"
    and "map (student_of_heap h') (items_of_heap h a) = map (student_of_heap h) (items_of_heap h a)"
proof -
  from l obtain items where a: "a < free_addr h" and o: "objs h a = Some (ListObj items)"
    and s: "list_all (is_Student h) items"
    by (auto simp: is_Student_list_def split: option.splits obj.splits)
  from k a have o': "objs h' a = objs h a" and a': "a < free_addr h'"
    by (simp_all add: old_kept_def)
  from s old_kept_Student [OF k] have s': "list_all (is_Student h') items"
    and v: "map (student_of_heap h') items = map (student_of_heap h) items"
    by (simp_all add: list_all_iff)
  show "is_Student_list h' a" using a' o o' s' by (simp add: is_Student_list_def)
  show "items_of_heap h' a = items_of_heap h a" using o' by (simp add: items_of_heap_def)
  show "map (student_of_heap h') (items_of_heap h a) = map (student_of_heap h) (items_of_heap h a)"
    using o v by (simp add: items_of_heap_def)
qed

lemma old_kept_Room:
  assumes k: "old_kept h h'" and r: "is_Room h a"
  shows "is_Room h' a" and "room_of_heap h' a = room_of_heap h a"
proof -
  from r obtain i n l where a: "a < free_addr h" and o: "objs h a = Some (RoomObj i n l)"
    and s: "is_Student_list h l"
    by (auto simp: is_Room_def split: option.splits obj.splits)
  from k a have o': "objs h' a = objs h a" and a': "a < free_addr h'"
    by (simp_all add: old_kept_def)
  note sl = old_kept_Student_list [OF k s]
  show "is_Room h' a" using a' o o' sl(1) by (simp add: is_Room_def)
  show "room_of_heap h' a = room_of_heap h a"
    using o o' sl(2,3) by (simp add: room_of_heap_def)
qed

lemma old_kept_Room_list:
  assumes k: "old_kept h h'" and l: "is_Room_list h ref"
  shows "is_Room_list h' ref" and "rooms_of_heap h' ref = rooms_of_heap h ref"
proof -
  note it = is_Room_list_items [OF l]
  from k it(1) have o': "objs h' ref = objs h ref" and a': "ref < free_addr h'"
    by (simp_all add: old_kept_def)
  from it(3) old_kept_Room [OF k] have s': "list_all (is_Room h') (items_of_heap h ref)"
    and v: "map (room_of_heap h') (items_of_heap h ref) = map (room_of_heap h) (items_of_heap h ref)"
    by (simp_all add: list_all_iff)
  show "is_Room_list h' ref" using a' o' it(2) s' by (simp add: is_Room_list_def)
  show "rooms_of_heap h' ref = rooms_of_heap h ref"
    using o' v by (simp add: rooms_of_heap_def items_of_heap_def)
qed

lemma sequence_map:
  assumes "\<And>x. x \<in> set xs \<Longrightarrow> f x = Inr (g x)"
  shows "sequence (map f xs) = Inr (map g xs)"
  using assms by (induction xs) simp_all

lemma asdict_inner_Student:
  assumes "is_Student h a"
  shows "asdict_inner (Suc d) h a = Inr (asdict_Student (student_of_heap h a))"
  using assms
  by (auto simp: is_Student_def student_of_heap_def asdict_Student_def
      split: option.splits obj.splits)

lemma asdict_inner_Room:
  assumes r: "is_Room h a"
  shows "asdict_inner (Suc (Suc (Suc d))) h a = Inr (asdict_Room (room_of_heap h a))"
proof -
  from r obtain i n l items where o: "objs h a = Some (RoomObj i n l)"
    and lo: "objs h l = Some (ListObj items)" and s: "list_all (is_Student h) items"
    by (auto simp: is_Room_def is_Student_list_def split: option.splits obj.splits)
  have "sequence (map (asdict_inner (Suc d) h) items) =
      Inr (map (\<lambda>x. asdict_Student (student_of_heap h x)) items)"
    using s by (intro sequence_map asdict_inner_Student) (simp add: list_all_iff)
  then show ?thesis
    using o lo by (simp add: room_of_heap_def items_of_heap_def asdict_Room_def comp_def)
qed

lemma json_heap_refines:
  assumes wf: "is_Room_list h ref" and d: "3 \<le> depth_limit"
  shows "JsonDataSerializer_serialize_heap depth_limit ref h =
           (JsonDataSerializer_serialize (rooms_of_heap h ref), h)"
proof -
  note it = is_Room_list_items [OF wf]
  define m where "m = depth_limit - 3"
  have m: "depth_limit = Suc (Suc (Suc m))"
    using d by (simp add: m_def)
  have "sequence (map (asdict_heap depth_limit h) (items_of_heap h ref)) =
      Inr (map (\<lambda>x. asdict_Room (room_of_heap h x)) (items_of_heap h ref))"
  proof (rule sequence_map)
    fix x assume "x \<in> set (items_of_heap h ref)"
    with it(3) have r: "is_Room h x" by (simp add: list_all_iff)
    then have "asdict_heap depth_limit h x = asdict_inner depth_limit h x"
      by (auto simp: asdict_heap_def is_Room_def split: option.splits obj.splits)
    with asdict_inner_Room [OF r] show "asdict_heap depth_limit h x = Inr (asdict_Room (room_of_heap h x))"
      by (simp add: m)
  qed
  then show ?thesis
    using it(2)
    by (simp add: JsonDataSerializer_serialize_heap_def JsonDataSerializer_serialize_def
        rooms_as_dictionary_def rooms_of_heap_def bind_h_def read_h_def iterate_def comp_def)
qed

lemma serialize_twice_kept:
  assumes wf: "is_Room_list h ref"
    and step: "\<And>h. is_Room_list h ref \<Longrightarrow>
      \<exists>h'. serialize ref h = (pure (rooms_of_heap h ref), h') \<and> old_kept h h'"
  shows "\<exists>h'. serialize ref h = (pure (rooms_of_heap h ref), h') \<and> old_kept h h' \<and>
           is_Room_list h' ref \<and> rooms_of_heap h' ref = rooms_of_heap h ref \<and>
           serialize_twice serialize ref h =
             (pure (rooms_of_heap h ref), pure (rooms_of_heap h ref))"
proof -
  from step [OF wf] obtain h' where
    one: "serialize ref h = (pure (rooms_of_heap h ref), h')" and k: "old_kept h h'"
    by blast
  note wf' = old_kept_Room_list [OF k wf]
  from step [OF wf'(1)] obtain h'' where
    "serialize ref h' = (pure (rooms_of_heap h' ref), h'')"
    by blast
  with one wf'(2) have
    "serialize_twice serialize ref h = (pure (rooms_of_heap h ref), pure (rooms_of_heap h ref))"
    by (simp add: serialize_twice_def)
  with one k wf' show ?thesis by blast
qed

text \<open>
  C8: on a heap where the reference is to a list of rooms that hold lists of students,
  and with room for three nested calls, the JSON serializer returns a text, the text of
  \<open>JsonDataSerializer_serialize\<close> for the rooms that the reference stands for; with room
  for five nested calls the XML serializer returns what \<open>XmlDataSerializer_serialize\<close>
  returns for these rooms, which is a text when the names of the rooms and of their
  students are strings or \<open>None\<close>. Either call leaves every object that existed as it
  was, so the reference stands for the same rooms afterwards, and a second call returns
  what the first has returned.
\<close>

theorem serializers_return_same_text_twice:
  assumes wf: "is_Room_list h combined_rooms"
  shows
    "(3 \<le> depth_limit \<longrightarrow>
        (\<exists>out h'. JsonDataSerializer_serialize_heap depth_limit combined_rooms h = (Inr out, h') \<and>
           Inr out = JsonDataSerializer_serialize (rooms_of_heap h combined_rooms) \<and>
           old_kept h h' \<and> is_Room_list h' combined_rooms \<and>
           rooms_of_heap h' combined_rooms = rooms_of_heap h combined_rooms \<and>
           serialize_twice (JsonDataSerializer_serialize_heap depth_limit) combined_rooms h =
             (Inr out, Inr out))) \<and>
     (5 \<le> depth_limit \<longrightarrow>
        (\<exists>res h'. XmlDataSerializer_serialize_heap depth_limit combined_rooms h = (res, h') \<and>
           res = XmlDataSerializer_serialize (rooms_of_heap h combined_rooms) \<and>
           old_kept h h' \<and> is_Room_list h' combined_rooms \<and>
           rooms_of_heap h' combined_rooms = rooms_of_heap h combined_rooms \<and>
           serialize_twice (XmlDataSerializer_serialize_heap depth_limit) combined_rooms h =
             (res, res) \<and>
           (list_all names_are_text (rooms_of_heap h combined_rooms) \<longrightarrow>
              (\<exists>out. res = Inr out))))"
proof (intro conjI impI)
  assume d: "3 \<le> depth_limit"
  have "\<exists>h'. JsonDataSerializer_serialize_heap depth_limit combined_rooms h =
          (JsonDataSerializer_serialize (rooms_of_heap h combined_rooms), h') \<and> old_kept h h' \<and>
        is_Room_list h' combined_rooms \<and>
        rooms_of_heap h' combined_rooms = rooms_of_heap h combined_rooms \<and>
        serialize_twice (JsonDataSerializer_serialize_heap depth_limit) combined_rooms h =
          (JsonDataSerializer_serialize (rooms_of_heap h combined_rooms),
           JsonDataSerializer_serialize (rooms_of_heap h combined_rooms))"
  proof (rule serialize_twice_kept [OF wf])
    fix h assume "is_Room_list h combined_rooms"
    from json_heap_refines [OF this d]
    show "\<exists>h'. JsonDataSerializer_serialize_heap depth_limit combined_rooms h =
        (JsonDataSerializer_serialize (rooms_of_heap h combined_rooms), h') \<and> old_kept h h'"
      by (simp add: old_kept_def)
  qed
  then show "\<exists>out h'. JsonDataSerializer_serialize_heap depth_limit combined_rooms h = (Inr out, h') \<and>
           Inr out = JsonDataSerializer_serialize (rooms_of_heap h combined_rooms) \<and>
           old_kept h h' \<and> is_Room_list h' combined_rooms \<and>
           rooms_of_heap h' combined_rooms = rooms_of_heap h combined_rooms \<and>
           serialize_twice (JsonDataSerializer_serialize_heap depth_limit) combined_rooms h =
             (Inr out, Inr out)"
    by (simp add: JsonDataSerializer_serialize_def)
next
  assume d: "5 \<le> depth_limit"
  have "\<exists>h'. XmlDataSerializer_serialize_heap depth_limit combined_rooms h =
          (XmlDataSerializer_serialize (rooms_of_heap h combined_rooms), h') \<and> old_kept h h' \<and>
        is_Room_list h' combined_rooms \<and>
        rooms_of_heap h' combined_rooms = rooms_of_heap h combined_rooms \<and>
        serialize_twice (XmlDataSerializer_serialize_heap depth_limit) combined_rooms h =
          (XmlDataSerializer_serialize (rooms_of_heap h combined_rooms),
           XmlDataSerializer_serialize (rooms_of_heap h combined_rooms))"
  proof (rule serialize_twice_kept [OF wf])
    fix h assume "is_Room_list h combined_rooms"
    then show "\<exists>h'. XmlDataSerializer_serialize_heap depth_limit combined_rooms h =
        (XmlDataSerializer_serialize (rooms_of_heap h combined_rooms), h') \<and> old_kept h h'"
      using d by (rule xml_heap_refines)
  qed
  with xml_serialize_ok [of "rooms_of_heap h combined_rooms"]
  show "\<exists>res h'. XmlDataSerializer_serialize_heap depth_limit combined_rooms h = (res, h') \<and>
           res = XmlDataSerializer_serialize (rooms_of_heap h combined_rooms) \<and>
           old_kept h h' \<and> is_Room_list h' combined_rooms \<and>
           rooms_of_heap h' combined_rooms = rooms_of_heap h combined_rooms \<and>
           serialize_twice (XmlDataSerializer_serialize_heap depth_limit) combined_rooms h =
             (res, res) \<and>
           (list_all names_are_text (rooms_of_heap h combined_rooms) \<longrightarrow>
              (\<exists>out. res = Inr out))"
    by blast
qed

theorem serializers_return_same_text_twice_witness:
  "is_Room_list example_heap 5 \<and>
   rooms_of_heap example_heap 5 = one_room_combined \<and>
   list_all names_are_text one_room_combined \<and>
   serialize_twice (JsonDataSerializer_serialize_heap 5) 5 example_heap =
     (Inr (rooms_array one_room_combined), Inr (rooms_array one_room_combined)) \<and>
   serialize_twice (XmlDataSerializer_serialize_heap 5) 5 example_heap =
     (Inr (''<Rooms><Room><id>10</id><name>Alpha</name><Students><Student><id>1</id>'' @
           ''<name>Ann</name><room>10</room></Student></Students></Room>'' @
           ''<Room><id>30</id><name>Gamma</name><Students /></Room></Rooms>''),
      Inr (''<Rooms><Room><id>10</id><name>Alpha</name><Students><Student><id>1</id>'' @
           ''<name>Ann</name><room>10</room></Student></Students></Room>'' @
           ''<Room><id>30</id><name>Gamma</name><Students /></Room></Rooms>''))"
proof -
  have wf: "is_Room_list example_heap 5"
    by code_simp
  have rs: "rooms_of_heap example_heap 5 = one_room_combined"
    by code_simp
  have n: "list_all names_are_text one_room_combined"
    by (simp add: one_room_combined_def names_are_text_def text_or_none_def)
  from serializers_return_same_text_twice [OF wf, of 5] obtain j where
    j: "Inr j = JsonDataSerializer_serialize (rooms_of_heap example_heap 5)"
       "serialize_twice (JsonDataSerializer_serialize_heap 5) 5 example_heap = (Inr j, Inr j)"
    by auto
  from serializers_return_same_text_twice [OF wf, of 5] have
    x: "serialize_twice (XmlDataSerializer_serialize_heap 5) 5 example_heap =
          (XmlDataSerializer_serialize (rooms_of_heap example_heap 5),
           XmlDataSerializer_serialize (rooms_of_heap example_heap 5))"
    by auto
  have "JsonDataSerializer_serialize one_room_combined = Inr (rooms_array one_room_combined)"
    by code_simp
  with j(1) have j': "j = rooms_array one_room_combined"
    by (simp add: rs)
  have x': "XmlDataSerializer_serialize one_room_combined =
     Inr (''<Rooms><Room><id>10</id><name>Alpha</name><Students><Student><id>1</id>'' @
           ''<name>Ann</name><room>10</room></Student></Students></Room>'' @
           ''<Room><id>30</id><name>Gamma</name><Students /></Room></Rooms>'')"
    by code_simp
  from wf rs n j(2) x show ?thesis
    unfolding j' rs x' by simp
qed

end
